theory Spec2Isabelle
  imports Complex_Main "HOL-Library.Word"
begin

unbundle bit_operations_syntax

section \<open>Machine types\<close>

text \<open>
  \<open>size_t\<close> and \<open>uint64_t\<close> are 64-bit unsigned words (the addon is built for 64-bit
  desktop targets), \<open>uint32_t\<close>, \<open>uint16_t\<close>, \<open>uint8_t\<close> are words of their width,
  \<open>int16_t\<close> and \<open>int32_t\<close> are words read through \<open>sint\<close>.  A \<open>float\<close> is kept as its
  IEEE-754 binary32 bit pattern.
\<close>

type_synonym size_t = "64 word"
type_synonym uint64_t = "64 word"
type_synonym uint32_t = "32 word"
type_synonym uint16_t = "16 word"
type_synonym uint8_t = "8 word"
type_synonym int16_t = "16 word"
type_synonym int32_t = "32 word"
type_synonym float32 = "32 word"

text \<open>
  Undefined behaviour of the C++ is a value of the model: an integer division by zero,
  and a \<open>memcpy\<close> that writes past the end of its destination.
\<close>

datatype error = DivisionByZero | BufferOverrun

section \<open>audio\_capture\_base.h: the raw captured sample\<close>

record AudioFormat =
  sampleRate :: uint32_t
  channels :: uint16_t
  bitsPerSample :: uint16_t
  bytesPerFrame :: uint32_t
  blockAlign :: uint32_t
  isFloat :: bool
  isNonInterleaved :: bool
  formatFlags :: uint32_t

record AudioSample =
  data :: "uint8_t list"
  format :: AudioFormat
  timestamp :: uint64_t
  frameCount :: uint32_t

section \<open>IEEE-754 binary32 values\<close>

text \<open>
  The value a bit pattern denotes.  Finite values are exact rationals; the sign of a
  zero is not kept, since no operation below depends on it.
\<close>

datatype fvalue = Finite rat | PosInf | NegInf | NaN

definition f32_value :: "float32 \<Rightarrow> fvalue" where
  "f32_value w =
     (let negative = bit w 31;
          e = unat (drop_bit 23 w AND 0xFF);
          m = unat (w AND 0x7FFFFF)
      in if e = 255 then (if m = 0 then (if negative then NegInf else PosInf) else NaN)
         else
           let mag = (if e = 0 then of_nat m / 2 ^ 149
                      else of_nat (2 ^ 23 + m) * 2 ^ e / 2 ^ 150)
           in Finite (if negative then - mag else mag))"

text \<open>The comparisons \<open><\<close> and \<open>>=\<close> of C++ on \<open>float\<close>: false as soon as one side is a NaN.\<close>

fun f_less :: "fvalue \<Rightarrow> fvalue \<Rightarrow> bool" where
  "f_less NaN _ = False"
| "f_less _ NaN = False"
| "f_less (Finite a) (Finite b) = (a < b)"
| "f_less NegInf NegInf = False"
| "f_less NegInf _ = True"
| "f_less _ NegInf = False"
| "f_less PosInf _ = False"
| "f_less _ PosInf = True"


text \<open>The literals \<open>1.0f\<close>, \<open>-1.0f\<close>, \<open>32768.0f\<close>, \<open>2147483648.0f\<close> and \<open>0.0f\<close>.\<close>

definition f32_one :: float32 where "f32_one = 0x3F800000"
definition f32_minus_one :: float32 where "f32_minus_one = 0xBF800000"
definition f32_32768 :: float32 where "f32_32768 = 0x47000000"
definition f32_2147483648 :: float32 where "f32_2147483648 = 0x4F000000"
definition f32_zero :: float32 where "f32_zero = 0"

text \<open>
  \<open>std::min(a, b)\<close> is \<open>(b < a) ? b : a\<close> and \<open>std::max(a, b)\<close> is \<open>(a < b) ? b : a\<close>;
  \<open>std::fmin\<close> and \<open>std::fmax\<close> return the other argument when one is a NaN.
\<close>

definition std_min :: "float32 \<Rightarrow> float32 \<Rightarrow> float32" where
  "std_min a b = (if f_less (f32_value b) (f32_value a) then b else a)"

definition std_max :: "float32 \<Rightarrow> float32 \<Rightarrow> float32" where
  "std_max a b = (if f_less (f32_value a) (f32_value b) then b else a)"

definition std_fmin :: "float32 \<Rightarrow> float32 \<Rightarrow> float32" where
  "std_fmin a b =
     (if f32_value a = NaN then b else if f32_value b = NaN then a
      else if f_less (f32_value b) (f32_value a) then b else a)"

definition std_fmax :: "float32 \<Rightarrow> float32 \<Rightarrow> float32" where
  "std_fmax a b =
     (if f32_value a = NaN then b else if f32_value b = NaN then a
      else if f_less (f32_value a) (f32_value b) then b else a)"

text \<open>
  The product \<open>sample * 32768.0f\<close>.  Multiplying by \<open>2 ^ 15\<close> only moves the exponent, so
  the product of a finite value is exact unless it overflows the largest finite
  binary32 value, \<open>(2 ^ 24 - 1) * 2 ^ 104\<close>, where it is an infinity.
\<close>

definition times_32768 :: "float32 \<Rightarrow> fvalue" where
  "times_32768 x =
     (case f32_value x of
        Finite v \<Rightarrow>
          (if (2 ^ 24 - 1) * 2 ^ 104 < v * 32768 then PosInf
           else if v * 32768 < - ((2 ^ 24 - 1) * 2 ^ 104) then NegInf
           else Finite (v * 32768))
      | other \<Rightarrow> other)"

text \<open>
  \<open>std::lrintf\<close> in the default rounding mode: to the nearest integer, ties to even.
  For an infinity or a NaN the C standard leaves the result unspecified; x86-64 gives
  \<open>LONG_MIN\<close>.  The callers below clamp to \<open>[-1, 1]\<close> first, so they never get there.
\<close>

definition round_half_even :: "rat \<Rightarrow> int" where
  "round_half_even v =
     (let f = \<lfloor>v\<rfloor>; d = v - of_int f
      in if d < 1 / 2 then f else if 1 / 2 < d then f + 1
         else if even f then f else f + 1)"

definition lrintf :: "fvalue \<Rightarrow> int" where
  "lrintf x = (case x of Finite v \<Rightarrow> round_half_even v | _ \<Rightarrow> - (2 ^ 63))"

text \<open>
  The arithmetic of the floating-point unit that rounds (conversion of an integer to
  \<open>float\<close>, \<open>+\<close> and \<open>/\<close>) is a parameter of \<open>ConvertToMonoFloat32\<close>.
\<close>

record fpu =
  int_to_float :: "int \<Rightarrow> float32"
  float_add :: "float32 \<Rightarrow> float32 \<Rightarrow> float32"
  float_div :: "float32 \<Rightarrow> float32 \<Rightarrow> float32"

section \<open>audio\_format\_converter.cpp\<close>

text \<open>
  \<open>reinterpret\_cast\<close> of the byte buffer on a little-endian host: element \<open>i\<close> of the
  buffer read as \<open>int16_t\<close>, as \<open>int32_t\<close> or as \<open>float\<close>.
\<close>

definition read_int16 :: "uint8_t list \<Rightarrow> nat \<Rightarrow> int16_t" where
  "read_int16 bytes i = ucast (bytes ! (2 * i)) OR push_bit 8 (ucast (bytes ! (2 * i + 1)))"

definition read_int32 :: "uint8_t list \<Rightarrow> nat \<Rightarrow> int32_t" where
  "read_int32 bytes i =
     ucast (bytes ! (4 * i)) OR push_bit 8 (ucast (bytes ! (4 * i + 1)))
       OR push_bit 16 (ucast (bytes ! (4 * i + 2))) OR push_bit 24 (ucast (bytes ! (4 * i + 3)))"

definition read_float :: "uint8_t list \<Rightarrow> nat \<Rightarrow> float32" where
  "read_float bytes i = read_int32 bytes i"

text \<open>
  The body of the loop of \<open>FloatToInt16\<close>: clamp with \<open>std::max\<close>/\<open>std::min\<close>, clamp
  again with \<open>std::fmax\<close>/\<open>std::fmin\<close>, scale, round, and cast the \<open>long\<close> to \<open>int16_t\<close>
  (which keeps the low 16 bits).
\<close>

definition FloatToInt16_sample :: "float32 \<Rightarrow> int16_t" where
  "FloatToInt16_sample x =
     (let sample = std_max f32_minus_one (std_min f32_one x);
          sample = std_fmax f32_minus_one (std_fmin f32_one sample)
      in word_of_int (lrintf (times_32768 sample)))"

definition FloatToInt16 :: "float32 list \<Rightarrow> int16_t list" where
  "FloatToInt16 samples = map FloatToInt16_sample samples"

text \<open>The conversion written inline in the non-interleaved branch of \<open>ConvertToPCM16\<close>.\<close>

definition planar_sample_to_int16 :: "float32 \<Rightarrow> int16_t" where
  "planar_sample_to_int16 x =
     (let sample = std_fmax f32_minus_one (std_fmin f32_one x)
      in word_of_int (lrintf (times_32768 sample)))"

definition Int32ToInt16 :: "int32_t list \<Rightarrow> int16_t list" where
  "Int32ToInt16 samples = map (\<lambda>sample32. ucast (signed_drop_bit 16 sample32)) samples"

text \<open>
  \<open>StereoToMono\<close>.  \<open>left\<close> and \<open>right\<close> are widened to \<open>int32_t\<close>, added, shifted right
  arithmetically by one and cast back.
\<close>

definition mono_of_pair :: "int16_t \<Rightarrow> int16_t \<Rightarrow> int16_t" where
  "mono_of_pair l r =
     (let left = (scast l :: int32_t); right = (scast r :: int32_t)
      in ucast (signed_drop_bit 1 (left + right)))"

fun StereoToMono_loop :: "int16_t list \<Rightarrow> int16_t list" where
  "StereoToMono_loop (l # r # rest) = mono_of_pair l r # StereoToMono_loop rest"
| "StereoToMono_loop _ = []"

definition StereoToMono :: "int16_t list \<Rightarrow> int16_t list" where
  "StereoToMono stereoData =
     (if length stereoData mod 2 \<noteq> 0 then [] else StereoToMono_loop stereoData)"

text \<open>The 24-bit branch of \<open>ConvertToPCM16\<close>, for one sample of three bytes.\<close>

definition sample24_to_int16 :: "uint8_t \<Rightarrow> uint8_t \<Rightarrow> uint8_t \<Rightarrow> int16_t" where
  "sample24_to_int16 b0 b1 b2 =
     (let sample24 = (ucast b0 OR push_bit 8 (ucast b1) OR push_bit 16 (ucast b2) :: int32_t);
          sample24 = (if sample24 AND 0x800000 \<noteq> 0 then sample24 OR 0xFF000000 else sample24)
      in ucast (signed_drop_bit 8 sample24))"

text \<open>
  Step 1 of \<open>ConvertToPCM16\<close>: the raw bytes to \<open>int16_t\<close> samples.  \<open>None\<close> is the
  branch of an unsupported bit depth.  In the 16-bit branch \<open>memcpy\<close> copies all
  \<open>input.data.size()\<close> bytes into a vector of \<open>size / 2\<close> samples, one byte too many when
  the size is odd.  In the 32-bit branch \<open>size / (4 * channels)\<close> divides by zero when
  the format has no channel.
\<close>

definition decode_int16 :: "AudioSample \<Rightarrow> error + int16_t list option" where
  "decode_int16 input =
     (let bytes = AudioSample.data input; fmt = format input;
          nch = unat (AudioFormat.channels fmt)
      in if bitsPerSample fmt = 16 then
           (let sampleCount = length bytes div 2
            in if length bytes > 2 * sampleCount then Inl BufferOverrun
               else Inr (Some (map (read_int16 bytes) [0..<sampleCount])))
         else if bitsPerSample fmt = 32 then
           (if nch = 0 then Inl DivisionByZero
            else
              let frames = length bytes div (4 * nch);
                  totalSamples = frames * nch
              in if isFloat fmt then
                   (if isNonInterleaved fmt \<and> AudioFormat.channels fmt = 2 then
                      Inr (Some (concat (map (\<lambda>frame.
                             [planar_sample_to_int16 (read_float bytes frame),
                              planar_sample_to_int16 (read_float bytes (frames + frame))])
                           [0..<frames])))
                    else Inr (Some (FloatToInt16 (map (read_float bytes) [0..<totalSamples]))))
                 else Inr (Some (Int32ToInt16 (map (read_int32 bytes) [0..<totalSamples]))))
         else if bitsPerSample fmt = 24 then
           (let sampleCount = length bytes div 3
            in Inr (Some (map (\<lambda>i. sample24_to_int16 (bytes ! (i * 3)) (bytes ! (i * 3 + 1))
                                      (bytes ! (i * 3 + 2)))
                          [0..<sampleCount])))
         else Inr None)"

definition ConvertToPCM16 :: "AudioSample \<Rightarrow> uint32_t \<Rightarrow> uint16_t \<Rightarrow> error + int16_t list" where
  "ConvertToPCM16 input targetSampleRate targetChannels =
     (if AudioSample.data input = [] then Inr []
      else
        case decode_int16 input of
          Inl e \<Rightarrow> Inl e
        | Inr None \<Rightarrow> Inr []
        | Inr (Some samples) \<Rightarrow>
            if AudioFormat.channels (format input) > 1 \<and> targetChannels = 1
            then Inr (StereoToMono samples)
            else Inr samples)"

text \<open>Step 1 of \<open>ConvertToMonoFloat32\<close>: the raw bytes to \<open>float\<close> samples.\<close>

definition decode_float :: "fpu \<Rightarrow> AudioSample \<Rightarrow> error + float32 list option" where
  "decode_float fp input =
     (let bytes = AudioSample.data input; fmt = format input;
          nch = unat (AudioFormat.channels fmt)
      in if bitsPerSample fmt = 16 then
           (let sampleCount = length bytes div 2
            in Inr (Some (map (\<lambda>i. float_div fp (int_to_float fp (sint (read_int16 bytes i)))
                                      f32_32768)
                          [0..<sampleCount])))
         else if bitsPerSample fmt = 32 then
           (if nch = 0 then Inl DivisionByZero
            else
              let frames = length bytes div (4 * nch);
                  totalSamples = frames * nch
              in if isFloat fmt then
                   (if isNonInterleaved fmt \<and> AudioFormat.channels fmt = 2 then
                      Inr (Some (concat (map (\<lambda>frame.
                             [read_float bytes frame, read_float bytes (frames + frame)])
                           [0..<frames])))
                    else Inr (Some (map (read_float bytes) [0..<totalSamples])))
                 else Inr (Some (map (\<lambda>i. float_div fp (int_to_float fp (sint (read_int32 bytes i)))
                                            f32_2147483648)
                                [0..<totalSamples])))
         else Inr None)"

text \<open>Step 2 of \<open>ConvertToMonoFloat32\<close>: the mean of the channels of each frame.\<close>

definition downmix_float :: "fpu \<Rightarrow> nat \<Rightarrow> float32 list \<Rightarrow> float32 list" where
  "downmix_float fp nch samples =
     map (\<lambda>frame.
            float_div fp
              (foldl (\<lambda>sum ch. float_add fp sum (samples ! (frame * nch + ch))) f32_zero [0..<nch])
              (int_to_float fp (int nch)))
         [0..<length samples div nch]"

definition ConvertToMonoFloat32 :: "fpu \<Rightarrow> AudioSample \<Rightarrow> error + float32 list" where
  "ConvertToMonoFloat32 fp input =
     (if AudioSample.data input = [] then Inr []
      else
        case decode_float fp input of
          Inl e \<Rightarrow> Inl e
        | Inr None \<Rightarrow> Inr []
        | Inr (Some samples) \<Rightarrow>
            if AudioFormat.channels (format input) > 1
            then Inr (downmix_float fp (unat (AudioFormat.channels (format input))) samples)
            else Inr samples)"

section \<open>audio\_buffer.h: chunks and the buffer state\<close>

text \<open>
  \<open>struct AudioChunk\<close> and \<open>struct Float32AudioChunk\<close> have the same four fields and
  differ in the sample type only, so one record with the sample type as a parameter
  stands for both.
\<close>

record 's Chunk =
  data :: "'s list"
  timestamp :: uint64_t
  sampleRate :: uint32_t
  channels :: uint16_t

type_synonym AudioChunk = "int16_t Chunk"
type_synonym Float32AudioChunk = "float32 Chunk"

record AudioBuffer =
  chunks :: "AudioChunk list"
  float32Chunks :: "Float32AudioChunk list"
  maxSizeBytes :: size_t
  currentSizeBytes :: size_t

text \<open>The constructor \<open>AudioBuffer::AudioBuffer(size_t maxSizeBytes)\<close>.\<close>

definition AudioBuffer_new :: "size_t \<Rightarrow> AudioBuffer" where
  "AudioBuffer_new maxBytes =
     \<lparr>chunks = [], float32Chunks = [], maxSizeBytes = maxBytes, currentSizeBytes = 0\<rparr>"

text \<open>The default argument of the constructor, \<open>5 * 1024 * 1024\<close>.\<close>

definition default_maxSizeBytes :: size_t where
  "default_maxSizeBytes = 5 * 1024 * 1024"

section \<open>audio\_buffer.cpp\<close>

text \<open>
  \<open>GetChunkSize\<close>: \<open>sizeof(AudioChunk) + chunk.data.size() * sizeof(int16_t)\<close>, in
  \<open>size_t\<close> arithmetic.  \<open>sizeof(AudioChunk)\<close> depends on the ABI of the build (40 on
  LP64 with libstdc++), so it is the parameter \<open>hdr\<close> of every operation that uses it.
\<close>

definition GetChunkSize :: "size_t \<Rightarrow> AudioChunk \<Rightarrow> size_t" where
  "GetChunkSize hdr chunk = hdr + word_of_nat (length (data chunk)) * 2"

text \<open>
  \<open>TrimToSize\<close>: the \<open>while\<close> loop drops the front PCM16 chunk as long as the counter
  is above the budget and the PCM16 queue is not empty.  The float32 queue is never
  touched.
\<close>

function TrimToSize :: "size_t \<Rightarrow> AudioBuffer \<Rightarrow> AudioBuffer" where
  "TrimToSize hdr s =
     (if currentSizeBytes s > maxSizeBytes s \<and> chunks s \<noteq> []
      then TrimToSize hdr
             (s\<lparr>currentSizeBytes := currentSizeBytes s - GetChunkSize hdr (hd (chunks s)),
                chunks := tl (chunks s)\<rparr>)
      else s)"
  by pat_completeness auto
termination
  by (relation "measure (\<lambda>(hdr, s). length (chunks s))") auto

declare TrimToSize.simps [simp del]

text \<open>
  \<open>Push\<close>.  The reading of the steady clock, \<open>GetCurrentTimestamp()\<close>, is the input
  \<open>now\<close>.
\<close>

definition Push ::
  "size_t \<Rightarrow> uint64_t \<Rightarrow> AudioBuffer \<Rightarrow> int16_t list \<Rightarrow> uint32_t \<Rightarrow> uint16_t \<Rightarrow> AudioBuffer" where
  "Push hdr now s audioData rate ch =
     (if audioData = [] then s
      else
        let chunk = \<lparr>data = audioData, timestamp = now, sampleRate = rate, channels = ch\<rparr>;
            chunkSize = GetChunkSize hdr chunk
        in TrimToSize hdr
             (s\<lparr>chunks := chunks s @ [chunk],
                currentSizeBytes := currentSizeBytes s + chunkSize\<rparr>))"

definition PushFloat32 ::
  "size_t \<Rightarrow> uint64_t \<Rightarrow> AudioBuffer \<Rightarrow> float32 list \<Rightarrow> uint32_t \<Rightarrow> uint16_t \<Rightarrow> AudioBuffer" where
  "PushFloat32 hdr now s audioData rate ch =
     (if audioData = [] then s
      else
        let chunk = \<lparr>data = audioData, timestamp = now, sampleRate = rate, channels = ch\<rparr>;
            chunkSize = word_of_nat (length audioData) * 4
        in TrimToSize hdr
             (s\<lparr>float32Chunks := float32Chunks s @ [chunk],
                currentSizeBytes := currentSizeBytes s + chunkSize\<rparr>))"

text \<open>
  \<open>bool Pop(AudioChunk& chunk)\<close>: \<open>None\<close> is the return value \<open>false\<close> (the out
  parameter is left alone), \<open>Some c\<close> is \<open>true\<close> with \<open>c\<close> written to the out parameter.
\<close>

definition Pop :: "size_t \<Rightarrow> AudioBuffer \<Rightarrow> AudioChunk option \<times> AudioBuffer" where
  "Pop hdr s =
     (if chunks s = [] then (None, s)
      else
        let chunk = hd (chunks s)
        in (Some chunk,
            s\<lparr>currentSizeBytes := currentSizeBytes s - GetChunkSize hdr chunk,
              chunks := tl (chunks s)\<rparr>))"

text \<open>
  The loop of \<open>PopMultiple\<close>, on the buffer, the result vector and \<open>count\<close>.
\<close>

function PopMultiple_loop ::
  "size_t \<Rightarrow> size_t \<Rightarrow> AudioBuffer \<Rightarrow> AudioChunk list \<Rightarrow> size_t
     \<Rightarrow> AudioChunk list \<times> AudioBuffer" where
  "PopMultiple_loop hdr maxChunks s result count =
     (if chunks s \<noteq> [] \<and> count < maxChunks
      then
        let chunk = hd (chunks s)
        in PopMultiple_loop hdr maxChunks
             (s\<lparr>currentSizeBytes := currentSizeBytes s - GetChunkSize hdr chunk,
                chunks := tl (chunks s)\<rparr>)
             (result @ [chunk]) (count + 1)
      else (result, s))"
  by pat_completeness auto
termination
  by (relation "measure (\<lambda>(hdr, maxChunks, s, result, count). length (chunks s))") auto

declare PopMultiple_loop.simps [simp del]

definition PopMultiple :: "size_t \<Rightarrow> AudioBuffer \<Rightarrow> size_t \<Rightarrow> AudioChunk list \<times> AudioBuffer" where
  "PopMultiple hdr s maxChunks = PopMultiple_loop hdr maxChunks s [] 0"

function PopMultipleFloat32_loop ::
  "size_t \<Rightarrow> AudioBuffer \<Rightarrow> Float32AudioChunk list \<Rightarrow> size_t
     \<Rightarrow> Float32AudioChunk list \<times> AudioBuffer" where
  "PopMultipleFloat32_loop maxChunks s result count =
     (if float32Chunks s \<noteq> [] \<and> count < maxChunks
      then
        let chunk = hd (float32Chunks s)
        in PopMultipleFloat32_loop maxChunks
             (s\<lparr>currentSizeBytes := currentSizeBytes s - word_of_nat (length (data chunk)) * 4,
                float32Chunks := tl (float32Chunks s)\<rparr>)
             (result @ [chunk]) (count + 1)
      else (result, s))"
  by pat_completeness auto
termination
  by (relation "measure (\<lambda>(maxChunks, s, result, count). length (float32Chunks s))") auto

declare PopMultipleFloat32_loop.simps [simp del]

definition PopMultipleFloat32 ::
  "AudioBuffer \<Rightarrow> size_t \<Rightarrow> Float32AudioChunk list \<times> AudioBuffer" where
  "PopMultipleFloat32 s maxChunks = PopMultipleFloat32_loop maxChunks s [] 0"

definition Clear :: "AudioBuffer \<Rightarrow> AudioBuffer" where
  "Clear s = s\<lparr>chunks := [], float32Chunks := [], currentSizeBytes := 0\<rparr>"

definition GetSize :: "AudioBuffer \<Rightarrow> size_t" where
  "GetSize s = currentSizeBytes s"

definition IsEmpty :: "AudioBuffer \<Rightarrow> bool" where
  "IsEmpty s = (chunks s = [])"

definition SetMaxSize :: "size_t \<Rightarrow> AudioBuffer \<Rightarrow> size_t \<Rightarrow> AudioBuffer" where
  "SetMaxSize hdr s maxBytes = TrimToSize hdr (s\<lparr>maxSizeBytes := maxBytes\<rparr>)"

text \<open>
  \<open>GetBufferedDurationMs\<close>.  The loop carries \<open>totalSamples\<close> (\<open>uint64_t\<close>) and
  \<open>avgSampleRate\<close> (\<open>uint32_t\<close>).  \<open>chunk.data.size() / chunk.channels\<close> is an integer
  division in \<open>size_t\<close>; with \<open>chunk.channels == 0\<close> it is a division by zero, which C++
  leaves undefined (a trap on x86): the model returns \<open>Inl DivisionByZero\<close> there.
\<close>

fun duration_loop ::
  "AudioChunk list \<Rightarrow> uint64_t \<Rightarrow> uint32_t \<Rightarrow> error + (uint64_t \<times> uint32_t)" where
  "duration_loop [] totalSamples avgSampleRate = Inr (totalSamples, avgSampleRate)"
| "duration_loop (chunk # rest) totalSamples avgSampleRate =
     (if channels chunk = 0 then Inl DivisionByZero
      else duration_loop rest
             (totalSamples + word_of_nat (length (data chunk)) div ucast (channels chunk))
             (sampleRate chunk))"

definition GetBufferedDurationMs :: "AudioBuffer \<Rightarrow> error + uint64_t" where
  "GetBufferedDurationMs s =
     (if chunks s = [] then Inr 0
      else
        case duration_loop (chunks s) 0 0 of
          Inl e \<Rightarrow> Inl e
        | Inr (totalSamples, avgSampleRate) \<Rightarrow>
            if avgSampleRate = 0 then Inr 0
            else Inr ((totalSamples * 1000) div ucast avgSampleRate))"

section \<open>Sequences of buffer operations\<close>

text \<open>
  The public operations that change the buffer, as a datatype, and the buffer reached
  from a start state by a sequence of them (each call holds the mutex for its whole body,
  so calls are serialised).
\<close>

datatype buffer_op =
    OpPush uint64_t "int16_t list" uint32_t uint16_t
  | OpPushFloat32 uint64_t "float32 list" uint32_t uint16_t
  | OpPop
  | OpPopMultiple size_t
  | OpPopMultipleFloat32 size_t
  | OpClear
  | OpSetMaxSize size_t

fun apply_op :: "size_t \<Rightarrow> AudioBuffer \<Rightarrow> buffer_op \<Rightarrow> AudioBuffer" where
  "apply_op hdr s (OpPush now d r c) = Push hdr now s d r c"
| "apply_op hdr s (OpPushFloat32 now d r c) = PushFloat32 hdr now s d r c"
| "apply_op hdr s OpPop = snd (Pop hdr s)"
| "apply_op hdr s (OpPopMultiple n) = snd (PopMultiple hdr s n)"
| "apply_op hdr s (OpPopMultipleFloat32 n) = snd (PopMultipleFloat32 s n)"
| "apply_op hdr s OpClear = Clear s"
| "apply_op hdr s (OpSetMaxSize b) = SetMaxSize hdr s b"

definition run_ops :: "size_t \<Rightarrow> AudioBuffer \<Rightarrow> buffer_op list \<Rightarrow> AudioBuffer" where
  "run_ops hdr s ops = foldl (apply_op hdr) s ops"

fun is_producer_op :: "buffer_op \<Rightarrow> bool" where
  "is_producer_op (OpPush now d r c) = True"
| "is_producer_op (OpPushFloat32 now d r c) = True"
| "is_producer_op (OpSetMaxSize b) = True"
| "is_producer_op _ = False"

text \<open>
  The budget in force after a sequence of operations on a buffer created with budget
  \<open>B\<close>: the argument of the last \<open>SetMaxSize\<close>, or \<open>B\<close> when there is none.
\<close>

fun new_budget :: "size_t \<Rightarrow> buffer_op \<Rightarrow> size_t" where
  "new_budget b (OpSetMaxSize b') = b'"
| "new_budget b _ = b"

definition budget_after :: "size_t \<Rightarrow> buffer_op list \<Rightarrow> size_t" where
  "budget_after B ops = foldl new_budget B ops"

fun is_set_budget :: "buffer_op \<Rightarrow> bool" where
  "is_set_budget (OpSetMaxSize b) = True"
| "is_set_budget _ = False"

text \<open>The bytes that \<open>TrimToSize\<close> or \<open>PopMultiple\<close> subtracts for a list of removed chunks.\<close>

definition evicted_bytes :: "size_t \<Rightarrow> AudioChunk list \<Rightarrow> size_t" where
  "evicted_bytes hdr cs = sum_list (map (GetChunkSize hdr) cs)"

definition float32_evicted_bytes :: "Float32AudioChunk list \<Rightarrow> size_t" where
  "float32_evicted_bytes cs = sum_list (map (\<lambda>c. word_of_nat (length (data c)) * 4) cs)"

text \<open>
  The byte size of a queued chunk as a natural number, \<open>sizeof(AudioChunk) + 2 * n\<close> for
  PCM16 and \<open>4 * n\<close> for float32, and the sum over both queues.
\<close>

definition chunk_bytes :: "size_t \<Rightarrow> AudioChunk \<Rightarrow> nat" where
  "chunk_bytes hdr c = unat hdr + 2 * length (data c)"

definition float32_chunk_bytes :: "Float32AudioChunk \<Rightarrow> nat" where
  "float32_chunk_bytes c = 4 * length (data c)"

definition queued_bytes :: "size_t \<Rightarrow> AudioBuffer \<Rightarrow> nat" where
  "queued_bytes hdr s =
     sum_list (map (chunk_bytes hdr) (chunks s))
       + sum_list (map float32_chunk_bytes (float32Chunks s))"

definition counter_exact :: "size_t \<Rightarrow> AudioBuffer \<Rightarrow> bool" where
  "counter_exact hdr s = (currentSizeBytes s = word_of_nat (queued_bytes hdr s))"

definition budget_respected :: "AudioBuffer \<Rightarrow> bool" where
  "budget_respected s = (chunks s \<noteq> [] \<longrightarrow> currentSizeBytes s \<le> maxSizeBytes s)"

section \<open>The specification's formulas\<close>

text \<open>
  The 24-bit decoding in the words of the specification: the three little-endian bytes
  as an unsigned 24-bit value, sign-extended by testing bit 23, then shifted right
  arithmetically by 8 bits (a division by \<open>2 ^ 8\<close> rounding down).
\<close>

definition le24_value :: "uint8_t \<Rightarrow> uint8_t \<Rightarrow> uint8_t \<Rightarrow> int" where
  "le24_value b0 b1 b2 = uint b0 + 256 * uint b1 + 65536 * uint b2"

definition sign_extend_24 :: "int \<Rightarrow> int" where
  "sign_extend_24 v = (if bit v 23 then v - 2 ^ 24 else v)"

definition decode24_spec :: "uint8_t \<Rightarrow> uint8_t \<Rightarrow> uint8_t \<Rightarrow> int" where
  "decode24_spec b0 b1 b2 = sign_extend_24 (le24_value b0 b1 b2) div 2 ^ 8"

text \<open>
  The buffered duration: the frames of a chunk are its sample count divided by its own
  channel count, rounding down; the duration is the frames of all queued PCM16 chunks
  times 1000, divided by the sample rate of the newest queued chunk, rounding down.
\<close>

definition frames_of :: "AudioChunk \<Rightarrow> nat" where
  "frames_of c = length (data c) div unat (channels c)"

definition total_frames :: "AudioBuffer \<Rightarrow> nat" where
  "total_frames s = sum_list (map frames_of (chunks s))"

definition total_samples :: "AudioBuffer \<Rightarrow> nat" where
  "total_samples s = sum_list (map (\<lambda>c. length (data c)) (chunks s))"

definition duration_ms :: "AudioBuffer \<Rightarrow> nat" where
  "duration_ms s =
     (if chunks s = [] \<or> sampleRate (last (chunks s)) = 0 then 0
      else total_frames s * 1000 div unat (sampleRate (last (chunks s))))"

text \<open>
  The formula as the specification words it, in exact arithmetic: total samples
  divided by channels, divided by the sample rate, times 1000.
\<close>

definition claimed_duration :: "nat \<Rightarrow> nat \<Rightarrow> nat \<Rightarrow> rat" where
  "claimed_duration totalSamples nch rate = of_nat totalSamples / of_nat nch / of_nat rate * 1000"

section \<open>Example states\<close>

definition demo_ops :: "buffer_op list" where
  "demo_ops =
     [OpPush 0 [1, 2, 3, 4, 5, 6, 7, 8, 9, 10] 48000 1,
      OpPushFloat32 1 [0, 0] 48000 1,
      OpPush 2 [1, 2, 3, 4, 5, 6, 7, 8, 9, 10] 48000 1,
      OpPush 3 [11, 12, 13, 14, 15, 16, 17, 18, 19, 20] 48000 1]"

text \<open>Three chunks of 44 bytes pushed with a budget of 200 bytes, then \<open>SetMaxSize(50)\<close>.\<close>

definition demo_shrink_ops :: "buffer_op list" where
  "demo_shrink_ops =
     [OpPush 0 [1, 2] 48000 1, OpPush 1 [3, 4] 48000 1, OpPush 2 [5, 6] 48000 1,
      OpSetMaxSize 50]"

definition demo_full :: AudioBuffer where
  "demo_full =
     \<lparr>chunks = [\<lparr>data = [1, 2], timestamp = 0, sampleRate = 48000, channels = 1\<rparr>,
                \<lparr>data = [3, 4], timestamp = 1, sampleRate = 48000, channels = 1\<rparr>,
                \<lparr>data = [5, 6], timestamp = 2, sampleRate = 48000, channels = 1\<rparr>],
      float32Chunks = [], maxSizeBytes = 50, currentSizeBytes = 132\<rparr>"

definition demo_mixed_ops :: "buffer_op list" where
  "demo_mixed_ops =
     [OpPush 0 [1, 2, 3] 48000 1,
      OpPushFloat32 1 [0, 0] 48000 1,
      OpPush 2 [4, 5] 48000 2,
      OpPop,
      OpPushFloat32 3 [0] 48000 1,
      OpPopMultipleFloat32 1,
      OpSetMaxSize 60]"

definition chunk_a :: "int16_t list" where
  "chunk_a = [1, 2, 3, 4, 5, 6, 7, 8, 9, 10]"

definition chunk_b :: "int16_t list" where
  "chunk_b = [11, 12, 13, 14, 15, 16, 17, 18, 19, 20]"

definition chunk_c :: "int16_t list" where
  "chunk_c = [21, 22, 23, 24, 25, 26, 27, 28, 29, 30]"

text \<open>Three chunks of 60 bytes each pushed into a buffer with a budget of 100 bytes.\<close>

definition demo_evicting :: AudioBuffer where
  "demo_evicting =
     Push 40 2 (Push 40 1 (Push 40 0 (AudioBuffer_new 100) chunk_a 48000 1)
                  chunk_b 48000 1) chunk_c 48000 1"

text \<open>Raw samples as a capture backend hands them over.\<close>

definition demo_format :: "uint16_t \<Rightarrow> uint16_t \<Rightarrow> bool \<Rightarrow> bool \<Rightarrow> AudioFormat" where
  "demo_format bits nch flt planar =
     \<lparr>AudioFormat.sampleRate = 48000, channels = nch, bitsPerSample = bits,
      bytesPerFrame = ucast nch * ucast bits div 8, blockAlign = ucast nch * ucast bits div 8,
      isFloat = flt, isNonInterleaved = planar, formatFlags = 0\<rparr>"

definition demo_sample :: "uint8_t list \<Rightarrow> AudioFormat \<Rightarrow> AudioSample" where
  "demo_sample bytes fmt =
     \<lparr>AudioSample.data = bytes, format = fmt, timestamp = 0, frameCount = 0\<rparr>"

definition demo_stereo16 :: AudioSample where
  "demo_stereo16 =
     demo_sample [0x64, 0x00, 0xC8, 0x00, 0x9C, 0xFF, 0x38, 0xFF] (demo_format 16 2 False False)"

definition demo_mono24 :: AudioSample where
  "demo_mono24 = demo_sample [0x00, 0x00, 0x80, 0xFF, 0xFF, 0x7F] (demo_format 24 1 False False)"

definition demo_mono8 :: AudioSample where
  "demo_mono8 = demo_sample [0x01, 0x02] (demo_format 8 1 False False)"


text \<open>
  Buffers after one or two pushes with the default budget: two well-formed chunks with
  different channel counts, a stereo chunk with an incomplete last frame, a chunk
  pushed with no channel, and a chunk pushed with a sample rate of zero; and a buffer
  with a budget of 100 bytes after the push of 960 samples.
\<close>

definition demo_mixed_channels :: AudioBuffer where
  "demo_mixed_channels =
     Push 40 1 (Push 40 0 (AudioBuffer_new default_maxSizeBytes) [1, 2, 3, 4] 1000 2)
       [5, 6] 1000 1"

definition demo_partial_frame :: AudioBuffer where
  "demo_partial_frame = Push 40 0 (AudioBuffer_new default_maxSizeBytes) [1, 2, 3] 500 2"

definition demo_zero_channels :: AudioBuffer where
  "demo_zero_channels = Push 40 0 (AudioBuffer_new default_maxSizeBytes) [1] 0 0"

definition demo_small_budget :: AudioBuffer where
  "demo_small_budget = Push 40 0 (AudioBuffer_new 100) (replicate 960 0) 48000 1"

definition demo_zero_rate :: AudioBuffer where
  "demo_zero_rate = Push 40 0 (AudioBuffer_new default_maxSizeBytes) [1] 0 1"

text \<open>
  Three chunks of a million samples each (2000040 bytes each) pushed into a buffer with
  the default budget of 5 MiB.
\<close>

definition demo_default_budget :: AudioBuffer where
  "demo_default_budget =
     Push 40 2 (Push 40 1 (Push 40 0 (AudioBuffer_new default_maxSizeBytes)
                  (replicate 1000000 1) 48000 1)
                  (replicate 1000000 2) 48000 1) (replicate 1000000 3) 48000 1"

section \<open>The bounded buffer: eviction and the byte budget\<close>

lemma TrimToSize_post:
  "chunks (TrimToSize hdr s) \<noteq> [] \<Longrightarrow> currentSizeBytes (TrimToSize hdr s) \<le> maxSizeBytes (TrimToSize hdr s)"
proof (induction hdr s rule: TrimToSize.induct)
  case (1 hdr s)
  show ?case
  proof (cases "currentSizeBytes s > maxSizeBytes s \<and> chunks s \<noteq> []")
    case True
    with 1 show ?thesis by (simp add: TrimToSize.simps [of hdr s])
  next
    case False
    with 1 show ?thesis by (auto simp add: TrimToSize.simps [of hdr s])
  qed
qed

lemma TrimToSize_max [simp]: "maxSizeBytes (TrimToSize hdr s) = maxSizeBytes s"
  and TrimToSize_f32 [simp]: "float32Chunks (TrimToSize hdr s) = float32Chunks s"
  by (induction hdr s rule: TrimToSize.induct; subst TrimToSize.simps; simp)+

lemma TrimToSize_char:
  "\<exists>k\<le>length (chunks s).
      TrimToSize hdr s =
        s\<lparr>currentSizeBytes := currentSizeBytes s - evicted_bytes hdr (take k (chunks s)),
          chunks := drop k (chunks s)\<rparr>
    \<and> (\<forall>j<k. currentSizeBytes s - evicted_bytes hdr (take j (chunks s)) > maxSizeBytes s)
    \<and> (k = length (chunks s)
        \<or> currentSizeBytes s - evicted_bytes hdr (take k (chunks s)) \<le> maxSizeBytes s)"
proof (induction hdr s rule: TrimToSize.induct)
  case (1 hdr s)
  show ?case
  proof (cases "currentSizeBytes s > maxSizeBytes s \<and> chunks s \<noteq> []")
    case False
    then have eq: "TrimToSize hdr s = s" by (subst TrimToSize.simps) auto
    from False show ?thesis
      by (intro exI [of _ 0]) (auto simp: eq evicted_bytes_def)
  next
    case True
    then obtain c cs where cs: "chunks s = c # cs" by (cases "chunks s") auto
    let ?s' = "s\<lparr>currentSizeBytes := currentSizeBytes s - GetChunkSize hdr (hd (chunks s)),
                chunks := tl (chunks s)\<rparr>"
    from 1 [OF True] obtain k where k: "k \<le> length (chunks ?s')"
      "TrimToSize hdr ?s' =
        ?s'\<lparr>currentSizeBytes := currentSizeBytes ?s' - evicted_bytes hdr (take k (chunks ?s')),
          chunks := drop k (chunks ?s')\<rparr>"
      "\<forall>j<k. currentSizeBytes ?s' - evicted_bytes hdr (take j (chunks ?s')) > maxSizeBytes ?s'"
      "k = length (chunks ?s')
        \<or> currentSizeBytes ?s' - evicted_bytes hdr (take k (chunks ?s')) \<le> maxSizeBytes ?s'"
      by blast
    have eq: "TrimToSize hdr s = TrimToSize hdr ?s'"
      using True by (subst TrimToSize.simps) simp
    have a: "Suc k \<le> length (chunks s)" using k(1) cs by simp
    have b: "TrimToSize hdr s =
        s\<lparr>currentSizeBytes := currentSizeBytes s - evicted_bytes hdr (take (Suc k) (chunks s)),
          chunks := drop (Suc k) (chunks s)\<rparr>"
      unfolding eq k(2) by (simp add: cs evicted_bytes_def algebra_simps)
    have c: "\<forall>j<Suc k. currentSizeBytes s - evicted_bytes hdr (take j (chunks s)) > maxSizeBytes s"
    proof (intro allI impI)
      fix j assume j: "j < Suc k"
      show "currentSizeBytes s - evicted_bytes hdr (take j (chunks s)) > maxSizeBytes s"
      proof (cases j)
        case 0
        then show ?thesis using True by (simp add: evicted_bytes_def)
      next
        case (Suc i)
        then have "i < k" using j by simp
        with k(3) have "currentSizeBytes ?s' - evicted_bytes hdr (take i (chunks ?s')) > maxSizeBytes ?s'"
          by blast
        then show ?thesis by (simp add: Suc cs evicted_bytes_def algebra_simps)
      qed
    qed
    have d: "Suc k = length (chunks s)
        \<or> currentSizeBytes s - evicted_bytes hdr (take (Suc k) (chunks s)) \<le> maxSizeBytes s"
      using k(4) by (simp add: cs evicted_bytes_def algebra_simps)
    from a b c d show ?thesis by blast
  qed
qed

lemma budget_respected_TrimToSize: "budget_respected (TrimToSize hdr s)"
  using TrimToSize_post [of hdr s] by (simp add: budget_respected_def)

lemma budget_respected_producer:
  "budget_respected s \<Longrightarrow> is_producer_op op \<Longrightarrow> budget_respected (apply_op hdr s op)"
  by (cases op)
     (simp_all add: Push_def PushFloat32_def SetMaxSize_def Let_def budget_respected_TrimToSize)

lemma budget_respected_run_ops:
  "budget_respected s \<Longrightarrow> list_all is_producer_op ops \<Longrightarrow> budget_respected (run_ops hdr s ops)"
  unfolding run_ops_def
  by (induction ops arbitrary: s) (simp_all add: budget_respected_producer)

lemma maxSizeBytes_Push: "maxSizeBytes (Push hdr now s d r c) = maxSizeBytes s"
  by (simp add: Push_def Let_def)

lemma maxSizeBytes_PushFloat32:
  "maxSizeBytes (PushFloat32 hdr now s d r c) = maxSizeBytes s"
  by (simp add: PushFloat32_def Let_def)

lemma maxSizeBytes_SetMaxSize: "maxSizeBytes (SetMaxSize hdr s b) = b"
  by (simp add: SetMaxSize_def)

lemma maxSizeBytes_Pop: "maxSizeBytes (snd (Pop hdr s)) = maxSizeBytes s"
  by (simp add: Pop_def Let_def)

lemma maxSizeBytes_PopMultiple_loop:
  "maxSizeBytes (snd (PopMultiple_loop hdr n s res cnt)) = maxSizeBytes s"
proof (induction hdr n s res cnt rule: PopMultiple_loop.induct)
  case (1 hdr n s res cnt)
  show ?case
  proof (cases "chunks s \<noteq> [] \<and> cnt < n")
    case True
    with 1 show ?thesis by (subst PopMultiple_loop.simps) (simp add: Let_def)
  next
    case False
    then show ?thesis by (subst PopMultiple_loop.simps) auto
  qed
qed

lemma maxSizeBytes_PopMultipleFloat32_loop:
  "maxSizeBytes (snd (PopMultipleFloat32_loop n s res cnt)) = maxSizeBytes s"
proof (induction n s res cnt rule: PopMultipleFloat32_loop.induct)
  case (1 n s res cnt)
  show ?case
  proof (cases "float32Chunks s \<noteq> [] \<and> cnt < n")
    case True
    with 1 show ?thesis by (subst PopMultipleFloat32_loop.simps) (simp add: Let_def)
  next
    case False
    then show ?thesis by (subst PopMultipleFloat32_loop.simps) auto
  qed
qed

lemma maxSizeBytes_apply_op:
  "maxSizeBytes (apply_op hdr s op) = new_budget (maxSizeBytes s) op"
  by (cases op)
     (simp_all add: PopMultiple_def PopMultipleFloat32_def Clear_def
        maxSizeBytes_Push maxSizeBytes_PushFloat32 maxSizeBytes_SetMaxSize maxSizeBytes_Pop
        maxSizeBytes_PopMultiple_loop maxSizeBytes_PopMultipleFloat32_loop)

lemma maxSizeBytes_run_ops:
  "maxSizeBytes (run_ops hdr s ops) = budget_after (maxSizeBytes s) ops"
  unfolding run_ops_def budget_after_def
  by (induction ops arbitrary: s) (simp_all add: maxSizeBytes_apply_op)

lemma budget_after_unchanged:
  "\<not> list_ex is_set_budget ops \<Longrightarrow> budget_after B ops = B"
  unfolding budget_after_def
proof (induction ops arbitrary: B)
  case (Cons op ops)
  then show ?case by (cases op) simp_all
qed simp

lemma budget_after_snoc: "budget_after B (ops @ [OpSetMaxSize b]) = b"
  by (simp add: budget_after_def)

text \<open>
  Claim C1.  Byte-budget invariant.  After any sequence of \<open>Push\<close>, \<open>PushFloat32\<close> and
  \<open>SetMaxSize\<close> calls on a buffer created with budget \<open>B\<close>, the budget in force is the
  argument of the last \<open>SetMaxSize\<close> (\<open>B\<close> itself when there is none), and a non-empty
  PCM16 queue implies that the byte counter is at most that budget.  Each operation is
  pinned on its own, from any state whatever: \<open>SetMaxSize(b)\<close> stores \<open>b\<close> as the budget
  and runs the eviction pass, so afterwards a non-empty PCM16 queue has the counter at
  most \<open>b\<close>; \<open>Push\<close> and \<open>PushFloat32\<close> of non-empty data append the chunk, add its size,
  keep the budget and run the eviction pass, so afterwards a non-empty PCM16 queue has
  the counter at most the budget.  The eviction pass removes some number \<open>k\<close> of chunks
  from the front of the PCM16 queue and subtracts their sizes: the counter was above the
  budget before each of the \<open>k\<close> removals, and afterwards it is within the budget or
  the queue is empty.  The float32 queue and the budget are left as they were.
\<close>

theorem byte_budget_invariant:
  "(list_all is_producer_op ops \<longrightarrow>
      (let s = run_ops hdr (AudioBuffer_new B) ops
       in maxSizeBytes s = budget_after B ops
        \<and> (chunks s \<noteq> [] \<longrightarrow> currentSizeBytes s \<le> budget_after B ops)
        \<and> (chunks s \<noteq> [] \<longrightarrow> currentSizeBytes s \<le> maxSizeBytes s)))
   \<and> (\<not> list_ex is_set_budget ops \<longrightarrow> budget_after B ops = B)
   \<and> budget_after B (ops @ [OpSetMaxSize b]) = b
   \<and> SetMaxSize hdr s0 b = TrimToSize hdr (s0\<lparr>maxSizeBytes := b\<rparr>)
   \<and> maxSizeBytes (SetMaxSize hdr s0 b) = b
   \<and> (chunks (SetMaxSize hdr s0 b) \<noteq> [] \<longrightarrow> currentSizeBytes (SetMaxSize hdr s0 b) \<le> b)
   \<and> (d \<noteq> [] \<longrightarrow>
        Push hdr now s0 d r c =
          TrimToSize hdr
            (s0\<lparr>chunks := chunks s0
                   @ [\<lparr>data = d, timestamp = now, sampleRate = r, channels = c\<rparr>],
                currentSizeBytes := currentSizeBytes s0
                   + GetChunkSize hdr \<lparr>data = d, timestamp = now, sampleRate = r, channels = c\<rparr>\<rparr>)
        \<and> maxSizeBytes (Push hdr now s0 d r c) = maxSizeBytes s0
        \<and> (chunks (Push hdr now s0 d r c) \<noteq> [] \<longrightarrow>
              currentSizeBytes (Push hdr now s0 d r c) \<le> maxSizeBytes s0))
   \<and> (e \<noteq> [] \<longrightarrow>
        PushFloat32 hdr now s0 e r c =
          TrimToSize hdr
            (s0\<lparr>float32Chunks := float32Chunks s0
                   @ [\<lparr>data = e, timestamp = now, sampleRate = r, channels = c\<rparr>],
                currentSizeBytes := currentSizeBytes s0 + word_of_nat (length e) * 4\<rparr>)
        \<and> maxSizeBytes (PushFloat32 hdr now s0 e r c) = maxSizeBytes s0
        \<and> (chunks (PushFloat32 hdr now s0 e r c) \<noteq> [] \<longrightarrow>
              currentSizeBytes (PushFloat32 hdr now s0 e r c) \<le> maxSizeBytes s0))
   \<and> (chunks (TrimToSize hdr s0) \<noteq> [] \<longrightarrow>
        currentSizeBytes (TrimToSize hdr s0) \<le> maxSizeBytes s0)
   \<and> (\<exists>k\<le>length (chunks s0).
        TrimToSize hdr s0 =
          s0\<lparr>currentSizeBytes := currentSizeBytes s0 - evicted_bytes hdr (take k (chunks s0)),
             chunks := drop k (chunks s0)\<rparr>
        \<and> (\<forall>j<k. currentSizeBytes s0 - evicted_bytes hdr (take j (chunks s0)) > maxSizeBytes s0)
        \<and> (k = length (chunks s0)
            \<or> currentSizeBytes s0 - evicted_bytes hdr (take k (chunks s0)) \<le> maxSizeBytes s0))"
proof -
  have inv: "list_all is_producer_op ops \<longrightarrow>
      (let s = run_ops hdr (AudioBuffer_new B) ops
       in maxSizeBytes s = budget_after B ops
        \<and> (chunks s \<noteq> [] \<longrightarrow> currentSizeBytes s \<le> budget_after B ops)
        \<and> (chunks s \<noteq> [] \<longrightarrow> currentSizeBytes s \<le> maxSizeBytes s))"
  proof
    assume ops: "list_all is_producer_op ops"
    have "budget_respected (AudioBuffer_new B)"
      by (simp add: budget_respected_def AudioBuffer_new_def)
    from budget_respected_run_ops [OF this ops, of hdr]
    have r: "chunks (run_ops hdr (AudioBuffer_new B) ops) \<noteq> [] \<longrightarrow>
        currentSizeBytes (run_ops hdr (AudioBuffer_new B) ops)
          \<le> maxSizeBytes (run_ops hdr (AudioBuffer_new B) ops)"
      by (simp add: budget_respected_def)
    have m: "maxSizeBytes (run_ops hdr (AudioBuffer_new B) ops) = budget_after B ops"
      by (simp add: maxSizeBytes_run_ops AudioBuffer_new_def)
    from r m show "let s = run_ops hdr (AudioBuffer_new B) ops
       in maxSizeBytes s = budget_after B ops
        \<and> (chunks s \<noteq> [] \<longrightarrow> currentSizeBytes s \<le> budget_after B ops)
        \<and> (chunks s \<noteq> [] \<longrightarrow> currentSizeBytes s \<le> maxSizeBytes s)"
      by (simp add: Let_def)
  qed
  have ba: "\<not> list_ex is_set_budget ops \<longrightarrow> budget_after B ops = B"
    by (simp add: budget_after_unchanged)
  have bs: "budget_after B (ops @ [OpSetMaxSize b]) = b" by (rule budget_after_snoc)
  have s1: "SetMaxSize hdr s0 b = TrimToSize hdr (s0\<lparr>maxSizeBytes := b\<rparr>)"
    by (simp add: SetMaxSize_def)
  have s2: "maxSizeBytes (SetMaxSize hdr s0 b) = b" by (rule maxSizeBytes_SetMaxSize)
  have s3: "chunks (SetMaxSize hdr s0 b) \<noteq> [] \<longrightarrow> currentSizeBytes (SetMaxSize hdr s0 b) \<le> b"
    using TrimToSize_post [of hdr "s0\<lparr>maxSizeBytes := b\<rparr>"] by (simp add: SetMaxSize_def)
  have p: "d \<noteq> [] \<longrightarrow>
        Push hdr now s0 d r c =
          TrimToSize hdr
            (s0\<lparr>chunks := chunks s0
                   @ [\<lparr>data = d, timestamp = now, sampleRate = r, channels = c\<rparr>],
                currentSizeBytes := currentSizeBytes s0
                   + GetChunkSize hdr \<lparr>data = d, timestamp = now, sampleRate = r, channels = c\<rparr>\<rparr>)
        \<and> maxSizeBytes (Push hdr now s0 d r c) = maxSizeBytes s0
        \<and> (chunks (Push hdr now s0 d r c) \<noteq> [] \<longrightarrow>
              currentSizeBytes (Push hdr now s0 d r c) \<le> maxSizeBytes s0)"
  proof
    assume d: "d \<noteq> []"
    let ?t = "s0\<lparr>chunks := chunks s0
                   @ [\<lparr>data = d, timestamp = now, sampleRate = r, channels = c\<rparr>],
                currentSizeBytes := currentSizeBytes s0
                   + GetChunkSize hdr \<lparr>data = d, timestamp = now, sampleRate = r, channels = c\<rparr>\<rparr>"
    from d have eq: "Push hdr now s0 d r c = TrimToSize hdr ?t" by (simp add: Push_def Let_def)
    from TrimToSize_post [of hdr ?t]
    have "chunks (Push hdr now s0 d r c) \<noteq> [] \<longrightarrow>
              currentSizeBytes (Push hdr now s0 d r c) \<le> maxSizeBytes s0"
      by (simp add: eq)
    with eq show "Push hdr now s0 d r c = TrimToSize hdr ?t
        \<and> maxSizeBytes (Push hdr now s0 d r c) = maxSizeBytes s0
        \<and> (chunks (Push hdr now s0 d r c) \<noteq> [] \<longrightarrow>
              currentSizeBytes (Push hdr now s0 d r c) \<le> maxSizeBytes s0)"
      by simp
  qed
  have pf: "e \<noteq> [] \<longrightarrow>
        PushFloat32 hdr now s0 e r c =
          TrimToSize hdr
            (s0\<lparr>float32Chunks := float32Chunks s0
                   @ [\<lparr>data = e, timestamp = now, sampleRate = r, channels = c\<rparr>],
                currentSizeBytes := currentSizeBytes s0 + word_of_nat (length e) * 4\<rparr>)
        \<and> maxSizeBytes (PushFloat32 hdr now s0 e r c) = maxSizeBytes s0
        \<and> (chunks (PushFloat32 hdr now s0 e r c) \<noteq> [] \<longrightarrow>
              currentSizeBytes (PushFloat32 hdr now s0 e r c) \<le> maxSizeBytes s0)"
  proof
    assume e: "e \<noteq> []"
    let ?t = "s0\<lparr>float32Chunks := float32Chunks s0
                   @ [\<lparr>data = e, timestamp = now, sampleRate = r, channels = c\<rparr>],
                currentSizeBytes := currentSizeBytes s0 + word_of_nat (length e) * 4\<rparr>"
    from e have eq: "PushFloat32 hdr now s0 e r c = TrimToSize hdr ?t"
      by (simp add: PushFloat32_def Let_def)
    from TrimToSize_post [of hdr ?t]
    have "chunks (PushFloat32 hdr now s0 e r c) \<noteq> [] \<longrightarrow>
              currentSizeBytes (PushFloat32 hdr now s0 e r c) \<le> maxSizeBytes s0"
      by (simp add: eq)
    with eq show "PushFloat32 hdr now s0 e r c = TrimToSize hdr ?t
        \<and> maxSizeBytes (PushFloat32 hdr now s0 e r c) = maxSizeBytes s0
        \<and> (chunks (PushFloat32 hdr now s0 e r c) \<noteq> [] \<longrightarrow>
              currentSizeBytes (PushFloat32 hdr now s0 e r c) \<le> maxSizeBytes s0)"
      by simp
  qed
  have t1: "chunks (TrimToSize hdr s0) \<noteq> [] \<longrightarrow>
        currentSizeBytes (TrimToSize hdr s0) \<le> maxSizeBytes s0"
    using TrimToSize_post [of hdr s0] by simp
  have t2: "\<exists>k\<le>length (chunks s0).
        TrimToSize hdr s0 =
          s0\<lparr>currentSizeBytes := currentSizeBytes s0 - evicted_bytes hdr (take k (chunks s0)),
             chunks := drop k (chunks s0)\<rparr>
        \<and> (\<forall>j<k. currentSizeBytes s0 - evicted_bytes hdr (take j (chunks s0)) > maxSizeBytes s0)
        \<and> (k = length (chunks s0)
            \<or> currentSizeBytes s0 - evicted_bytes hdr (take k (chunks s0)) \<le> maxSizeBytes s0)"
    by (rule TrimToSize_char)
  from inv ba bs s1 s2 s3 p pf t1 t2 show ?thesis by (intro conjI)
qed

lemma demo_run: "run_ops 40 (AudioBuffer_new 100) demo_ops =
   \<lparr>chunks = [\<lparr>data = [11, 12, 13, 14, 15, 16, 17, 18, 19, 20], timestamp = 3, sampleRate = 48000, channels = 1\<rparr>],
    float32Chunks = [\<lparr>data = [0, 0], timestamp = 1, sampleRate = 48000, channels = 1\<rparr>],
    maxSizeBytes = 100, currentSizeBytes = 68\<rparr>"
  by (simp add: run_ops_def demo_ops_def AudioBuffer_new_def Push_def PushFloat32_def
        GetChunkSize_def TrimToSize.simps Let_def)

lemma demo_shrink_run: "run_ops 40 (AudioBuffer_new 200) demo_shrink_ops =
   \<lparr>chunks = [\<lparr>data = [5, 6], timestamp = 2, sampleRate = 48000, channels = 1\<rparr>],
    float32Chunks = [], maxSizeBytes = 50, currentSizeBytes = 44\<rparr>"
  by (simp add: run_ops_def demo_shrink_ops_def AudioBuffer_new_def Push_def SetMaxSize_def
        GetChunkSize_def TrimToSize.simps Let_def)

lemma demo_trim: "TrimToSize 40 demo_full =
   \<lparr>chunks = [\<lparr>data = [5, 6], timestamp = 2, sampleRate = 48000, channels = 1\<rparr>],
      float32Chunks = [], maxSizeBytes = 50, currentSizeBytes = 44\<rparr>"
  by (simp add: demo_full_def GetChunkSize_def TrimToSize.simps)

text \<open>
  Claim C1, instances: pushes that evict under a budget of 100 bytes; three pushes
  under a budget of 200 bytes followed by \<open>SetMaxSize(50)\<close>, which evicts two chunks;
  and single operations on a state whose counter is above its budget.
\<close>

theorem byte_budget_invariant_witness:
  "list_all is_producer_op demo_ops
   \<and> \<not> list_ex is_set_budget demo_ops
   \<and> budget_after 100 demo_ops = 100
   \<and> chunks (run_ops 40 (AudioBuffer_new 100) demo_ops) \<noteq> []
   \<and> currentSizeBytes (run_ops 40 (AudioBuffer_new 100) demo_ops) \<le> 100
   \<and> list_all is_producer_op demo_shrink_ops
   \<and> budget_after 200 demo_shrink_ops = 50
   \<and> maxSizeBytes (run_ops 40 (AudioBuffer_new 200) demo_shrink_ops) = 50
   \<and> chunks (run_ops 40 (AudioBuffer_new 200) demo_shrink_ops) \<noteq> []
   \<and> currentSizeBytes (run_ops 40 (AudioBuffer_new 200) demo_shrink_ops) \<le> 50
   \<and> chunks (SetMaxSize 40 demo_full 50) \<noteq> []
   \<and> currentSizeBytes (SetMaxSize 40 demo_full 50) \<le> 50
   \<and> chunks (Push 40 9 demo_full [7, 8] 48000 1) \<noteq> []
   \<and> currentSizeBytes (Push 40 9 demo_full [7, 8] 48000 1) \<le> 50
   \<and> chunks (TrimToSize 40 demo_full) \<noteq> []
   \<and> currentSizeBytes (TrimToSize 40 demo_full) \<le> 50
   \<and> (\<exists>k\<le>3. TrimToSize 40 demo_full =
          demo_full\<lparr>currentSizeBytes := 132 - evicted_bytes 40 (take k (chunks demo_full)),
             chunks := drop k (chunks demo_full)\<rparr>)"
proof -
  have ops: "list_all is_producer_op demo_ops" "\<not> list_ex is_set_budget demo_ops"
    by (simp_all add: demo_ops_def)
  have ops2: "list_all is_producer_op demo_shrink_ops" by (simp add: demo_shrink_ops_def)
  have b2: "budget_after 200 demo_shrink_ops = 50"
    by (simp add: demo_shrink_ops_def budget_after_def)
  have ne: "chunks (run_ops 40 (AudioBuffer_new 100) demo_ops) \<noteq> []" by (simp add: demo_run)
  have ne2: "chunks (run_ops 40 (AudioBuffer_new 200) demo_shrink_ops) \<noteq> []"
    by (simp add: demo_shrink_run)
  have ne': "chunks (TrimToSize 40 demo_full) \<noteq> []" by (simp add: demo_trim)
  have ne3: "chunks (SetMaxSize 40 demo_full 50) \<noteq> []"
    by (simp add: SetMaxSize_def demo_full_def GetChunkSize_def TrimToSize.simps)
  have ne4: "chunks (Push 40 9 demo_full [7, 8] 48000 1) \<noteq> []"
    by (simp add: Push_def Let_def demo_full_def GetChunkSize_def TrimToSize.simps)
  have d: "[7, 8 :: int16_t] \<noteq> []" by simp
  have [simp]: "length (chunks demo_full) = 3" "currentSizeBytes demo_full = 132"
    "maxSizeBytes demo_full = 50"
    by (simp_all add: demo_full_def)
  note t1 = byte_budget_invariant [of demo_ops 40 100 50 demo_full "[7, 8]" 9 48000 1 "[0]"]
  note t2 = byte_budget_invariant [of demo_shrink_ops 40 200 50 demo_full "[7, 8]" 9 48000 1 "[0]"]
  from t1 ops(2) have a0: "budget_after 100 demo_ops = 100" by blast
  from t1 ops(1) have "let s = run_ops 40 (AudioBuffer_new 100) demo_ops
       in maxSizeBytes s = budget_after 100 demo_ops
        \<and> (chunks s \<noteq> [] \<longrightarrow> currentSizeBytes s \<le> budget_after 100 demo_ops)
        \<and> (chunks s \<noteq> [] \<longrightarrow> currentSizeBytes s \<le> maxSizeBytes s)"
    by blast
  with ne a0 have a: "budget_after 100 demo_ops = 100
      \<and> currentSizeBytes (run_ops 40 (AudioBuffer_new 100) demo_ops) \<le> 100"
    by (simp add: Let_def)
  from t2 ops2 have "let s = run_ops 40 (AudioBuffer_new 200) demo_shrink_ops
       in maxSizeBytes s = budget_after 200 demo_shrink_ops
        \<and> (chunks s \<noteq> [] \<longrightarrow> currentSizeBytes s \<le> budget_after 200 demo_shrink_ops)
        \<and> (chunks s \<noteq> [] \<longrightarrow> currentSizeBytes s \<le> maxSizeBytes s)"
    by blast
  with ne2 b2 have b: "maxSizeBytes (run_ops 40 (AudioBuffer_new 200) demo_shrink_ops) = 50
      \<and> currentSizeBytes (run_ops 40 (AudioBuffer_new 200) demo_shrink_ops) \<le> 50"
    by (simp add: Let_def)
  from t1 ne3 have c: "currentSizeBytes (SetMaxSize 40 demo_full 50) \<le> 50" by blast
  from t1 d have "chunks (Push 40 9 demo_full [7, 8] 48000 1) \<noteq> [] \<longrightarrow>
      currentSizeBytes (Push 40 9 demo_full [7, 8] 48000 1) \<le> maxSizeBytes demo_full"
    by blast
  with ne4 have e: "currentSizeBytes (Push 40 9 demo_full [7, 8] 48000 1) \<le> 50" by simp
  from t1 have "chunks (TrimToSize 40 demo_full) \<noteq> [] \<longrightarrow>
      currentSizeBytes (TrimToSize 40 demo_full) \<le> maxSizeBytes demo_full"
    by blast
  with ne' have f: "currentSizeBytes (TrimToSize 40 demo_full) \<le> 50" by simp
  from t1 have "\<exists>k\<le>length (chunks demo_full). TrimToSize 40 demo_full =
          demo_full\<lparr>currentSizeBytes :=
               currentSizeBytes demo_full - evicted_bytes 40 (take k (chunks demo_full)),
             chunks := drop k (chunks demo_full)\<rparr>"
    by blast
  then have g: "\<exists>k\<le>3. TrimToSize 40 demo_full =
          demo_full\<lparr>currentSizeBytes := 132 - evicted_bytes 40 (take k (chunks demo_full)),
             chunks := drop k (chunks demo_full)\<rparr>"
    by simp
  from ops ops2 b2 ne ne2 ne' ne3 ne4 a b c e f g show ?thesis by blast
qed

section \<open>The bounded buffer: the byte counter\<close>

lemma GetChunkSize_bytes: "GetChunkSize hdr c = word_of_nat (chunk_bytes hdr c)"
  by (simp add: GetChunkSize_def chunk_bytes_def)

lemma counter_exact_new: "counter_exact hdr (AudioBuffer_new B)"
  by (simp add: counter_exact_def queued_bytes_def AudioBuffer_new_def)

lemma counter_exact_drop_front:
  assumes "counter_exact hdr s" "chunks s \<noteq> []"
  shows "counter_exact hdr
           (s\<lparr>currentSizeBytes := currentSizeBytes s - GetChunkSize hdr (hd (chunks s)),
              chunks := tl (chunks s)\<rparr>)"
proof -
  from assms(2) obtain c cs where cs: "chunks s = c # cs" by (cases "chunks s") auto
  show ?thesis using assms(1)
    by (simp add: counter_exact_def queued_bytes_def cs GetChunkSize_bytes)
qed

lemma counter_exact_drop_front_f32:
  assumes "counter_exact hdr s" "float32Chunks s \<noteq> []"
  shows "counter_exact hdr
           (s\<lparr>currentSizeBytes :=
                currentSizeBytes s - word_of_nat (length (data (hd (float32Chunks s)))) * 4,
              float32Chunks := tl (float32Chunks s)\<rparr>)"
proof -
  from assms(2) obtain c cs where cs: "float32Chunks s = c # cs"
    by (cases "float32Chunks s") auto
  show ?thesis using assms(1)
    by (simp add: counter_exact_def queued_bytes_def cs float32_chunk_bytes_def)
qed

lemma counter_exact_TrimToSize:
  "counter_exact hdr s \<Longrightarrow> counter_exact hdr (TrimToSize hdr s)"
proof (induction hdr s rule: TrimToSize.induct)
  case (1 hdr s)
  show ?case
  proof (cases "currentSizeBytes s > maxSizeBytes s \<and> chunks s \<noteq> []")
    case True
    then have "TrimToSize hdr s = TrimToSize hdr
             (s\<lparr>currentSizeBytes := currentSizeBytes s - GetChunkSize hdr (hd (chunks s)),
                chunks := tl (chunks s)\<rparr>)"
      by (subst TrimToSize.simps) simp
    with 1 True show ?thesis by (simp add: counter_exact_drop_front)
  next
    case False
    then have "TrimToSize hdr s = s" by (subst TrimToSize.simps) auto
    with 1 show ?thesis by simp
  qed
qed

lemma counter_exact_Push:
  assumes "counter_exact hdr s"
  shows "counter_exact hdr (Push hdr now s d r c)"
proof (cases "d = []")
  case True
  with assms show ?thesis by (simp add: Push_def)
next
  case False
  from assms have "counter_exact hdr
     (s\<lparr>chunks := chunks s @ [\<lparr>data = d, timestamp = now, sampleRate = r, channels = c\<rparr>],
        currentSizeBytes := currentSizeBytes s
          + GetChunkSize hdr \<lparr>data = d, timestamp = now, sampleRate = r, channels = c\<rparr>\<rparr>)"
    by (simp add: counter_exact_def queued_bytes_def GetChunkSize_bytes)
  then show ?thesis using False
    by (simp add: Push_def Let_def counter_exact_TrimToSize)
qed

lemma counter_exact_PushFloat32:
  assumes "counter_exact hdr s"
  shows "counter_exact hdr (PushFloat32 hdr now s d r c)"
proof (cases "d = []")
  case True
  with assms show ?thesis by (simp add: PushFloat32_def)
next
  case False
  from assms have "counter_exact hdr
     (s\<lparr>float32Chunks := float32Chunks s
          @ [\<lparr>data = d, timestamp = now, sampleRate = r, channels = c\<rparr>],
        currentSizeBytes := currentSizeBytes s + word_of_nat (length d) * 4\<rparr>)"
    by (simp add: counter_exact_def queued_bytes_def float32_chunk_bytes_def)
  then show ?thesis using False
    by (simp add: PushFloat32_def Let_def counter_exact_TrimToSize)
qed

lemma counter_exact_Pop:
  "counter_exact hdr s \<Longrightarrow> counter_exact hdr (snd (Pop hdr s))"
  by (simp add: Pop_def Let_def counter_exact_drop_front)

lemma counter_exact_PopMultiple_loop:
  "counter_exact hdr s \<Longrightarrow> counter_exact hdr (snd (PopMultiple_loop hdr n s res cnt))"
proof (induction hdr n s res cnt rule: PopMultiple_loop.induct)
  case (1 hdr n s res cnt)
  show ?case
  proof (cases "chunks s \<noteq> [] \<and> cnt < n")
    case True
    with 1 show ?thesis
      by (subst PopMultiple_loop.simps) (simp add: Let_def counter_exact_drop_front)
  next
    case False
    with 1 show ?thesis by (subst PopMultiple_loop.simps) auto
  qed
qed

lemma counter_exact_PopMultipleFloat32_loop:
  "counter_exact hdr s \<Longrightarrow> counter_exact hdr (snd (PopMultipleFloat32_loop n s res cnt))"
proof (induction n s res cnt rule: PopMultipleFloat32_loop.induct)
  case (1 n s res cnt)
  show ?case
  proof (cases "float32Chunks s \<noteq> [] \<and> cnt < n")
    case True
    with 1 show ?thesis
      by (subst PopMultipleFloat32_loop.simps) (simp add: Let_def counter_exact_drop_front_f32)
  next
    case False
    with 1 show ?thesis by (subst PopMultipleFloat32_loop.simps) auto
  qed
qed

lemma counter_exact_Clear: "counter_exact hdr (Clear s)"
  by (simp add: Clear_def counter_exact_def queued_bytes_def)

lemma counter_exact_SetMaxSize:
  "counter_exact hdr s \<Longrightarrow> counter_exact hdr (SetMaxSize hdr s b)"
  unfolding SetMaxSize_def
  by (rule counter_exact_TrimToSize) (simp add: counter_exact_def queued_bytes_def)

lemma counter_exact_apply_op:
  "counter_exact hdr s \<Longrightarrow> counter_exact hdr (apply_op hdr s op)"
  by (cases op)
     (simp_all add: counter_exact_Push counter_exact_PushFloat32 counter_exact_Pop
        counter_exact_PopMultiple_loop counter_exact_PopMultipleFloat32_loop
        counter_exact_Clear counter_exact_SetMaxSize PopMultiple_def PopMultipleFloat32_def)

lemma counter_exact_run_ops:
  "counter_exact hdr s \<Longrightarrow> counter_exact hdr (run_ops hdr s ops)"
  unfolding run_ops_def
  by (induction ops arbitrary: s) (simp_all add: counter_exact_apply_op)

text \<open>
  Claim C2.  Counter accounting: in every state reached from a fresh buffer by the
  public operations, the byte counter equals, in \<open>size_t\<close> arithmetic, the sum of
  \<open>sizeof(AudioChunk) + 2 * sampleCount\<close> over the queued PCM16 chunks plus the sum of
  \<open>4 * sampleCount\<close> over the queued float32 chunks; as long as that sum fits \<open>size_t\<close>
  the counter is the sum itself.  \<open>Push\<close> and \<open>PushFloat32\<close> leave the buffer unchanged
  on empty input.
\<close>

theorem counter_accounting:
  "(let s = run_ops hdr (AudioBuffer_new B) ops in
      currentSizeBytes s = word_of_nat (queued_bytes hdr s)
      \<and> (queued_bytes hdr s < 2 ^ 64 \<longrightarrow> unat (currentSizeBytes s) = queued_bytes hdr s))
   \<and> Push hdr now s0 [] r c = s0
   \<and> PushFloat32 hdr now s0 [] r c = s0"
proof -
  have "counter_exact hdr (run_ops hdr (AudioBuffer_new B) ops)"
    by (rule counter_exact_run_ops) (rule counter_exact_new)
  then show ?thesis
    by (auto simp: counter_exact_def Let_def Push_def PushFloat32_def unat_of_nat take_bit_nat_eq_self)
qed

lemma demo_mixed_run: "run_ops 40 (AudioBuffer_new 100) demo_mixed_ops =
   \<lparr>chunks = [\<lparr>data = [4, 5], timestamp = 2, sampleRate = 48000, channels = 2\<rparr>],
    float32Chunks = [\<lparr>data = [0], timestamp = 3, sampleRate = 48000, channels = 1\<rparr>],
    maxSizeBytes = 60, currentSizeBytes = 48\<rparr>"
  by (simp add: run_ops_def demo_mixed_ops_def AudioBuffer_new_def Push_def PushFloat32_def
        Pop_def PopMultipleFloat32_def PopMultipleFloat32_loop.simps SetMaxSize_def
        GetChunkSize_def TrimToSize.simps Let_def)

theorem counter_accounting_witness:
  "queued_bytes 40 (run_ops 40 (AudioBuffer_new 100) demo_mixed_ops) < 2 ^ 64
   \<and> unat (currentSizeBytes (run_ops 40 (AudioBuffer_new 100) demo_mixed_ops)) = 48
   \<and> queued_bytes 40 (run_ops 40 (AudioBuffer_new 100) demo_mixed_ops) = 48"
proof -
  have q: "queued_bytes 40 (run_ops 40 (AudioBuffer_new 100) demo_mixed_ops) = 48"
    by (simp add: demo_mixed_run queued_bytes_def chunk_bytes_def float32_chunk_bytes_def)
  from counter_accounting [of 40 100 demo_mixed_ops] q
  show ?thesis by (simp add: Let_def)
qed

section \<open>The bounded buffer: FIFO order and batch pops\<close>

lemma unat_plus_one_less:
  fixes cnt n :: "'a::len word"
  assumes "cnt < n"
  shows "unat (cnt + 1) = Suc (unat cnt)"
proof -
  from assms have "unat cnt < unat n" by (simp add: word_less_nat_alt)
  moreover have "unat n < 2 ^ LENGTH('a)" by (rule unsigned_less)
  ultimately have "Suc (unat cnt) < 2 ^ LENGTH('a)" by linarith
  then have "unat cnt + unat (1 :: 'a word) < 2 ^ LENGTH('a)" by simp
  then have "unat (cnt + 1) = unat cnt + unat (1 :: 'a word)"
    by (simp only: unat_add_lem)
  then show ?thesis by simp
qed

lemma PopMultiple_loop_eq:
  "cnt \<le> n \<Longrightarrow>
   PopMultiple_loop hdr n s res cnt =
     (res @ take (unat n - unat cnt) (chunks s),
      s\<lparr>currentSizeBytes :=
           currentSizeBytes s - evicted_bytes hdr (take (unat n - unat cnt) (chunks s)),
        chunks := drop (unat n - unat cnt) (chunks s)\<rparr>)"
proof (induction hdr n s res cnt rule: PopMultiple_loop.induct)
  case (1 hdr n s res cnt)
  show ?case
  proof (cases "chunks s \<noteq> [] \<and> cnt < n")
    case False
    then have "chunks s = [] \<or> unat n - unat cnt = 0"
      using "1.prems" by (auto simp: word_less_nat_alt word_le_nat_alt)
    with False show ?thesis
      by (subst PopMultiple_loop.simps) (auto simp: evicted_bytes_def)
  next
    case True
    then obtain c cs where cs: "chunks s = c # cs" by (cases "chunks s") auto
    from True have lt: "cnt < n" by simp
    then have su: "unat (cnt + 1) = Suc (unat cnt)" by (rule unat_plus_one_less)
    then have su': "unat (1 + cnt) = Suc (unat cnt)" by (simp add: add.commute)
    from lt have le: "cnt + 1 \<le> n" by (simp add: inc_le)
    from lt have "unat cnt < unat n" by (simp add: word_less_nat_alt)
    then obtain m where m: "unat n - unat cnt = Suc m" "unat n - Suc (unat cnt) = m"
      by (cases "unat n - unat cnt") auto
    show ?thesis
      using "1.IH" [OF True refl le]
      by (subst PopMultiple_loop.simps) (simp add: True Let_def su su' m cs evicted_bytes_def algebra_simps)
  qed
qed

lemma PopMultipleFloat32_loop_eq:
  "cnt \<le> n \<Longrightarrow>
   PopMultipleFloat32_loop n s res cnt =
     (res @ take (unat n - unat cnt) (float32Chunks s),
      s\<lparr>currentSizeBytes :=
           currentSizeBytes s - float32_evicted_bytes (take (unat n - unat cnt) (float32Chunks s)),
        float32Chunks := drop (unat n - unat cnt) (float32Chunks s)\<rparr>)"
proof (induction n s res cnt rule: PopMultipleFloat32_loop.induct)
  case (1 n s res cnt)
  show ?case
  proof (cases "float32Chunks s \<noteq> [] \<and> cnt < n")
    case False
    then have "float32Chunks s = [] \<or> unat n - unat cnt = 0"
      using "1.prems" by (auto simp: word_less_nat_alt word_le_nat_alt)
    with False show ?thesis
      by (subst PopMultipleFloat32_loop.simps) (auto simp: float32_evicted_bytes_def)
  next
    case True
    then obtain c cs where cs: "float32Chunks s = c # cs" by (cases "float32Chunks s") auto
    from True have lt: "cnt < n" by simp
    then have su: "unat (cnt + 1) = Suc (unat cnt)" by (rule unat_plus_one_less)
    then have su': "unat (1 + cnt) = Suc (unat cnt)" by (simp add: add.commute)
    from lt have le: "cnt + 1 \<le> n" by (simp add: inc_le)
    from lt have "unat cnt < unat n" by (simp add: word_less_nat_alt)
    then obtain m where m: "unat n - unat cnt = Suc m" "unat n - Suc (unat cnt) = m"
      by (cases "unat n - unat cnt") auto
    show ?thesis
      using "1.IH" [OF True refl le]
      by (subst PopMultipleFloat32_loop.simps)
         (simp add: True Let_def su su' m cs float32_evicted_bytes_def algebra_simps)
  qed
qed

lemma PopMultiple_eq:
  "PopMultiple hdr s n =
     (take (unat n) (chunks s),
      s\<lparr>currentSizeBytes := currentSizeBytes s - evicted_bytes hdr (take (unat n) (chunks s)),
        chunks := drop (unat n) (chunks s)\<rparr>)"
  by (simp add: PopMultiple_def PopMultiple_loop_eq)

lemma PopMultipleFloat32_eq:
  "PopMultipleFloat32 s n =
     (take (unat n) (float32Chunks s),
      s\<lparr>currentSizeBytes :=
           currentSizeBytes s - float32_evicted_bytes (take (unat n) (float32Chunks s)),
        float32Chunks := drop (unat n) (float32Chunks s)\<rparr>)"
  by (simp add: PopMultipleFloat32_def PopMultipleFloat32_loop_eq)

lemma TrimToSize_within_budget:
  "currentSizeBytes s \<le> maxSizeBytes s \<Longrightarrow> TrimToSize hdr s = s"
  by (subst TrimToSize.simps) (simp add: not_less [symmetric])

lemma unat_counter_plus_chunk:
  fixes cur mx :: size_t
  assumes "unat cur + chunk_bytes hdr c \<le> unat mx"
  shows "unat (cur + GetChunkSize hdr c) = unat cur + chunk_bytes hdr c"
proof -
  have mx: "unat mx < 2 ^ 64" using unsigned_less [of mx, where 'a = nat] by simp
  with assms have cb: "chunk_bytes hdr c < 2 ^ 64" by linarith
  then have u: "unat (word_of_nat (chunk_bytes hdr c) :: size_t) = chunk_bytes hdr c"
    by (simp add: unat_of_nat take_bit_nat_eq_self)
  from assms mx have "unat cur + unat (word_of_nat (chunk_bytes hdr c) :: size_t) < 2 ^ LENGTH(64)"
    by (simp add: u)
  then have "unat (cur + word_of_nat (chunk_bytes hdr c)) =
      unat cur + unat (word_of_nat (chunk_bytes hdr c) :: size_t)"
    by (simp only: unat_add_lem)
  then show ?thesis by (simp add: u GetChunkSize_bytes)
qed

lemma Push_within_budget:
  assumes "d \<noteq> []"
    and "unat (currentSizeBytes s)
           + chunk_bytes hdr \<lparr>data = d, timestamp = now, sampleRate = r, channels = c\<rparr>
         \<le> unat (maxSizeBytes s)"
  shows "Push hdr now s d r c =
     s\<lparr>chunks := chunks s @ [\<lparr>data = d, timestamp = now, sampleRate = r, channels = c\<rparr>],
       currentSizeBytes := currentSizeBytes s
         + GetChunkSize hdr \<lparr>data = d, timestamp = now, sampleRate = r, channels = c\<rparr>\<rparr>"
proof -
  let ?c = "\<lparr>data = d, timestamp = now, sampleRate = r, channels = c\<rparr>"
  from unat_counter_plus_chunk [OF assms(2)] assms(2)
  have "currentSizeBytes s + GetChunkSize hdr ?c \<le> maxSizeBytes s"
    by (simp add: word_le_nat_alt)
  then show ?thesis using assms(1)
    by (simp add: Push_def Let_def TrimToSize_within_budget)
qed

lemma Push_three_within_budget:
  assumes ne: "d1 \<noteq> []" "d2 \<noteq> []" "d3 \<noteq> []"
    and fits: "unat (currentSizeBytes s)
           + chunk_bytes hdr \<lparr>data = d1, timestamp = t1, sampleRate = r1, channels = c1\<rparr>
           + chunk_bytes hdr \<lparr>data = d2, timestamp = t2, sampleRate = r2, channels = c2\<rparr>
           + chunk_bytes hdr \<lparr>data = d3, timestamp = t3, sampleRate = r3, channels = c3\<rparr>
         \<le> unat (maxSizeBytes s)"
  shows "chunks (Push hdr t3 (Push hdr t2 (Push hdr t1 s d1 r1 c1) d2 r2 c2) d3 r3 c3) =
     chunks s @ [\<lparr>data = d1, timestamp = t1, sampleRate = r1, channels = c1\<rparr>,
                 \<lparr>data = d2, timestamp = t2, sampleRate = r2, channels = c2\<rparr>,
                 \<lparr>data = d3, timestamp = t3, sampleRate = r3, channels = c3\<rparr>]"
proof -
  let ?k1 = "\<lparr>data = d1, timestamp = t1, sampleRate = r1, channels = c1\<rparr>"
  let ?k2 = "\<lparr>data = d2, timestamp = t2, sampleRate = r2, channels = c2\<rparr>"
  let ?k3 = "\<lparr>data = d3, timestamp = t3, sampleRate = r3, channels = c3\<rparr>"
  have f1: "unat (currentSizeBytes s) + chunk_bytes hdr ?k1 \<le> unat (maxSizeBytes s)"
    using fits by linarith
  note p1 = Push_within_budget [OF ne(1) f1]
  let ?s1 = "Push hdr t1 s d1 r1 c1"
  have u1: "unat (currentSizeBytes ?s1) = unat (currentSizeBytes s) + chunk_bytes hdr ?k1"
    by (simp add: p1 unat_counter_plus_chunk [OF f1])
  have m1: "maxSizeBytes ?s1 = maxSizeBytes s" by (simp add: p1)
  have f2: "unat (currentSizeBytes ?s1) + chunk_bytes hdr ?k2 \<le> unat (maxSizeBytes ?s1)"
    using fits by (simp only: u1 m1)
  note p2 = Push_within_budget [OF ne(2) f2]
  let ?s2 = "Push hdr t2 ?s1 d2 r2 c2"
  have u2: "unat (currentSizeBytes ?s2) =
      unat (currentSizeBytes s) + chunk_bytes hdr ?k1 + chunk_bytes hdr ?k2"
    using unat_counter_plus_chunk [OF f2] by (simp add: p2 u1)
  have m2: "maxSizeBytes ?s2 = maxSizeBytes s" by (simp add: p2 m1)
  have f3: "unat (currentSizeBytes ?s2) + chunk_bytes hdr ?k3 \<le> unat (maxSizeBytes ?s2)"
    using fits by (simp only: u2 m2)
  note p3 = Push_within_budget [OF ne(3) f3]
  have "chunks (Push hdr t3 ?s2 d3 r3 c3) = chunks ?s2 @ [?k3]" by (simp add: p3)
  also have "chunks ?s2 = chunks ?s1 @ [?k2]" by (simp add: p2)
  also have "chunks ?s1 = chunks s @ [?k1]" by (simp add: p1)
  finally show ?thesis by simp
qed

lemma Pop_front: "chunks s = c # cs \<Longrightarrow> fst (Pop hdr s) = Some c \<and> chunks (snd (Pop hdr s)) = cs"
  by (simp add: Pop_def Let_def)

lemma float32Chunks_PushFloat32:
  "d \<noteq> [] \<Longrightarrow> float32Chunks (PushFloat32 hdr now s d r c) =
      float32Chunks s @ [\<lparr>data = d, timestamp = now, sampleRate = r, channels = c\<rparr>]"
  by (simp add: PushFloat32_def Let_def)

lemma PopMultipleFloat32_one:
  "float32Chunks s = c # cs \<Longrightarrow>
     fst (PopMultipleFloat32 s 1) = [c] \<and> float32Chunks (snd (PopMultipleFloat32 s 1)) = cs"
  by (simp add: PopMultipleFloat32_eq)

lemma fifo_pcm16:
  assumes "chunks s = []" "d1 \<noteq> []" "d2 \<noteq> []" "d3 \<noteq> []"
    and "unat (currentSizeBytes s)
           + chunk_bytes hdr \<lparr>data = d1, timestamp = t1, sampleRate = r1, channels = c1\<rparr>
           + chunk_bytes hdr \<lparr>data = d2, timestamp = t2, sampleRate = r2, channels = c2\<rparr>
           + chunk_bytes hdr \<lparr>data = d3, timestamp = t3, sampleRate = r3, channels = c3\<rparr>
         \<le> unat (maxSizeBytes s)"
  shows "(let s3 = Push hdr t3 (Push hdr t2 (Push hdr t1 s d1 r1 c1) d2 r2 c2) d3 r3 c3;
              p1 = Pop hdr s3; p2 = Pop hdr (snd p1); p3 = Pop hdr (snd p2)
          in fst p1 = Some \<lparr>data = d1, timestamp = t1, sampleRate = r1, channels = c1\<rparr>
           \<and> fst p2 = Some \<lparr>data = d2, timestamp = t2, sampleRate = r2, channels = c2\<rparr>
           \<and> fst p3 = Some \<lparr>data = d3, timestamp = t3, sampleRate = r3, channels = c3\<rparr>
           \<and> chunks (snd p3) = [])"
proof -
  let ?s3 = "Push hdr t3 (Push hdr t2 (Push hdr t1 s d1 r1 c1) d2 r2 c2) d3 r3 c3"
  let ?k1 = "\<lparr>data = d1, timestamp = t1, sampleRate = r1, channels = c1\<rparr>"
  let ?k2 = "\<lparr>data = d2, timestamp = t2, sampleRate = r2, channels = c2\<rparr>"
  let ?k3 = "\<lparr>data = d3, timestamp = t3, sampleRate = r3, channels = c3\<rparr>"
  have q: "chunks ?s3 = [?k1, ?k2, ?k3]"
    using Push_three_within_budget [OF assms(2-5)] assms(1) by simp
  note a = Pop_front [OF q, of hdr]
  note b = Pop_front [OF a [THEN conjunct2], of hdr]
  note c = Pop_front [OF b [THEN conjunct2], of hdr]
  from a b c show ?thesis by (simp add: Let_def)
qed

lemma fifo_float32:
  assumes "float32Chunks s = []" "d1 \<noteq> []" "d2 \<noteq> []" "d3 \<noteq> []"
  shows "(let s3 = PushFloat32 hdr t3 (PushFloat32 hdr t2 (PushFloat32 hdr t1 s d1 r1 c1) d2 r2 c2)
                     d3 r3 c3;
              p1 = PopMultipleFloat32 s3 1; p2 = PopMultipleFloat32 (snd p1) 1;
              p3 = PopMultipleFloat32 (snd p2) 1
          in fst p1 = [\<lparr>data = d1, timestamp = t1, sampleRate = r1, channels = c1\<rparr>]
           \<and> fst p2 = [\<lparr>data = d2, timestamp = t2, sampleRate = r2, channels = c2\<rparr>]
           \<and> fst p3 = [\<lparr>data = d3, timestamp = t3, sampleRate = r3, channels = c3\<rparr>]
           \<and> float32Chunks (snd p3) = [])"
proof -
  let ?s3 = "PushFloat32 hdr t3 (PushFloat32 hdr t2 (PushFloat32 hdr t1 s d1 r1 c1) d2 r2 c2)
                     d3 r3 c3"
  let ?k1 = "\<lparr>data = d1, timestamp = t1, sampleRate = r1, channels = c1\<rparr>"
  let ?k2 = "\<lparr>data = d2, timestamp = t2, sampleRate = r2, channels = c2\<rparr>"
  let ?k3 = "\<lparr>data = d3, timestamp = t3, sampleRate = r3, channels = c3\<rparr>"
  have q: "float32Chunks ?s3 = [?k1, ?k2, ?k3]"
    using assms by (simp add: float32Chunks_PushFloat32)
  note a = PopMultipleFloat32_one [OF q]
  note b = PopMultipleFloat32_one [OF a [THEN conjunct2]]
  note c = PopMultipleFloat32_one [OF b [THEN conjunct2]]
  from a b c show ?thesis by (simp add: Let_def)
qed

text \<open>
  Claim C3, as amended.  \<open>PopMultiple(maxChunks)\<close> and \<open>PopMultipleFloat32(maxChunks)\<close>
  remove and return exactly the \<open>min(maxChunks, queue length)\<close> oldest chunks of their
  queue, in arrival order, and subtract their sizes from the counter.  Three non-empty
  float32 chunks pushed into a buffer whose float32 queue is empty come back in push
  order from three pops of one chunk.  Three non-empty PCM16 chunks pushed into a buffer
  whose PCM16 queue is empty come back in push order from three calls of \<open>Pop\<close>, provided
  that the counter with the three chunks added stays within the budget, so that no
  eviction pass removes one of them.
\<close>

theorem fifo_and_batch_pop:
  "PopMultiple hdr s n =
     (take (unat n) (chunks s),
      s\<lparr>currentSizeBytes := currentSizeBytes s - evicted_bytes hdr (take (unat n) (chunks s)),
        chunks := drop (unat n) (chunks s)\<rparr>)
   \<and> length (fst (PopMultiple hdr s n)) = min (unat n) (length (chunks s))
   \<and> PopMultipleFloat32 s n =
     (take (unat n) (float32Chunks s),
      s\<lparr>currentSizeBytes :=
           currentSizeBytes s - float32_evicted_bytes (take (unat n) (float32Chunks s)),
        float32Chunks := drop (unat n) (float32Chunks s)\<rparr>)
   \<and> length (fst (PopMultipleFloat32 s n)) = min (unat n) (length (float32Chunks s))
   \<and> (chunks s = [] \<and> d1 \<noteq> [] \<and> d2 \<noteq> [] \<and> d3 \<noteq> []
       \<and> unat (currentSizeBytes s)
           + chunk_bytes hdr \<lparr>data = d1, timestamp = t1, sampleRate = r1, channels = c1\<rparr>
           + chunk_bytes hdr \<lparr>data = d2, timestamp = t2, sampleRate = r2, channels = c2\<rparr>
           + chunk_bytes hdr \<lparr>data = d3, timestamp = t3, sampleRate = r3, channels = c3\<rparr>
         \<le> unat (maxSizeBytes s) \<longrightarrow>
       (let s3 = Push hdr t3 (Push hdr t2 (Push hdr t1 s d1 r1 c1) d2 r2 c2) d3 r3 c3;
            p1 = Pop hdr s3; p2 = Pop hdr (snd p1); p3 = Pop hdr (snd p2)
        in fst p1 = Some \<lparr>data = d1, timestamp = t1, sampleRate = r1, channels = c1\<rparr>
         \<and> fst p2 = Some \<lparr>data = d2, timestamp = t2, sampleRate = r2, channels = c2\<rparr>
         \<and> fst p3 = Some \<lparr>data = d3, timestamp = t3, sampleRate = r3, channels = c3\<rparr>
         \<and> chunks (snd p3) = []))
   \<and> (float32Chunks s = [] \<and> e1 \<noteq> [] \<and> e2 \<noteq> [] \<and> e3 \<noteq> [] \<longrightarrow>
       (let s3 = PushFloat32 hdr t3 (PushFloat32 hdr t2 (PushFloat32 hdr t1 s e1 r1 c1) e2 r2 c2)
                   e3 r3 c3;
            p1 = PopMultipleFloat32 s3 1; p2 = PopMultipleFloat32 (snd p1) 1;
            p3 = PopMultipleFloat32 (snd p2) 1
        in fst p1 = [\<lparr>data = e1, timestamp = t1, sampleRate = r1, channels = c1\<rparr>]
         \<and> fst p2 = [\<lparr>data = e2, timestamp = t2, sampleRate = r2, channels = c2\<rparr>]
         \<and> fst p3 = [\<lparr>data = e3, timestamp = t3, sampleRate = r3, channels = c3\<rparr>]
         \<and> float32Chunks (snd p3) = []))"
proof (intro conjI impI)
  show "PopMultiple hdr s n =
     (take (unat n) (chunks s),
      s\<lparr>currentSizeBytes := currentSizeBytes s - evicted_bytes hdr (take (unat n) (chunks s)),
        chunks := drop (unat n) (chunks s)\<rparr>)"
    by (rule PopMultiple_eq)
  show "length (fst (PopMultiple hdr s n)) = min (unat n) (length (chunks s))"
    by (simp add: PopMultiple_eq min.commute)
  show "PopMultipleFloat32 s n =
     (take (unat n) (float32Chunks s),
      s\<lparr>currentSizeBytes :=
           currentSizeBytes s - float32_evicted_bytes (take (unat n) (float32Chunks s)),
        float32Chunks := drop (unat n) (float32Chunks s)\<rparr>)"
    by (rule PopMultipleFloat32_eq)
  show "length (fst (PopMultipleFloat32 s n)) = min (unat n) (length (float32Chunks s))"
    by (simp add: PopMultipleFloat32_eq min.commute)
next
  assume "chunks s = [] \<and> d1 \<noteq> [] \<and> d2 \<noteq> [] \<and> d3 \<noteq> []
       \<and> unat (currentSizeBytes s)
           + chunk_bytes hdr \<lparr>data = d1, timestamp = t1, sampleRate = r1, channels = c1\<rparr>
           + chunk_bytes hdr \<lparr>data = d2, timestamp = t2, sampleRate = r2, channels = c2\<rparr>
           + chunk_bytes hdr \<lparr>data = d3, timestamp = t3, sampleRate = r3, channels = c3\<rparr>
         \<le> unat (maxSizeBytes s)"
  then show "let s3 = Push hdr t3 (Push hdr t2 (Push hdr t1 s d1 r1 c1) d2 r2 c2) d3 r3 c3;
            p1 = Pop hdr s3; p2 = Pop hdr (snd p1); p3 = Pop hdr (snd p2)
        in fst p1 = Some \<lparr>data = d1, timestamp = t1, sampleRate = r1, channels = c1\<rparr>
         \<and> fst p2 = Some \<lparr>data = d2, timestamp = t2, sampleRate = r2, channels = c2\<rparr>
         \<and> fst p3 = Some \<lparr>data = d3, timestamp = t3, sampleRate = r3, channels = c3\<rparr>
         \<and> chunks (snd p3) = []"
    using fifo_pcm16 [of s d1 d2 d3 hdr t1 r1 c1 t2 r2 c2 t3 r3 c3] by blast
next
  assume "float32Chunks s = [] \<and> e1 \<noteq> [] \<and> e2 \<noteq> [] \<and> e3 \<noteq> []"
  then show "let s3 = PushFloat32 hdr t3 (PushFloat32 hdr t2 (PushFloat32 hdr t1 s e1 r1 c1) e2 r2 c2)
                   e3 r3 c3;
            p1 = PopMultipleFloat32 s3 1; p2 = PopMultipleFloat32 (snd p1) 1;
            p3 = PopMultipleFloat32 (snd p2) 1
        in fst p1 = [\<lparr>data = e1, timestamp = t1, sampleRate = r1, channels = c1\<rparr>]
         \<and> fst p2 = [\<lparr>data = e2, timestamp = t2, sampleRate = r2, channels = c2\<rparr>]
         \<and> fst p3 = [\<lparr>data = e3, timestamp = t3, sampleRate = r3, channels = c3\<rparr>]
         \<and> float32Chunks (snd p3) = []"
    using fifo_float32 [of s e1 e2 e3 hdr t3 t2 t1 r1 c1 r2 c2 r3 c3] by blast
qed

text \<open>
  Claim C3 as stated does not hold once eviction runs: with the default budget of 5 MiB
  and three chunks of a million samples each, the third push evicts the first chunk, so
  the first \<open>Pop\<close> returns the second chunk, not the first, and the third \<open>Pop\<close> returns
  nothing.
\<close>

lemma demo_default_budget_eq: "demo_default_budget =
   \<lparr>chunks = [\<lparr>data = replicate 1000000 2, timestamp = 1, sampleRate = 48000, channels = 1\<rparr>,
              \<lparr>data = replicate 1000000 3, timestamp = 2, sampleRate = 48000, channels = 1\<rparr>],
    float32Chunks = [], maxSizeBytes = 5242880, currentSizeBytes = 4000080\<rparr>"
  by (simp add: demo_default_budget_def AudioBuffer_new_def default_maxSizeBytes_def Push_def
        GetChunkSize_def TrimToSize.simps Let_def)

lemma demo_evicting_eq: "demo_evicting =
   \<lparr>chunks = [\<lparr>data = chunk_c, timestamp = 2, sampleRate = 48000, channels = 1\<rparr>],
    float32Chunks = [], maxSizeBytes = 100, currentSizeBytes = 60\<rparr>"
  by (simp add: demo_evicting_def chunk_a_def chunk_b_def chunk_c_def AudioBuffer_new_def Push_def
        GetChunkSize_def TrimToSize.simps Let_def)

theorem fifo_counterexample:
  "fst (Pop 40 demo_default_budget)
     = Some \<lparr>data = replicate 1000000 2, timestamp = 1, sampleRate = 48000, channels = 1\<rparr>
   \<and> fst (Pop 40 demo_default_budget)
     \<noteq> Some \<lparr>data = replicate 1000000 1, timestamp = 0, sampleRate = 48000, channels = 1\<rparr>
   \<and> fst (Pop 40 (snd (Pop 40 (snd (Pop 40 demo_default_budget))))) = None"
  by (simp add: demo_default_budget_eq Pop_def Let_def)

text \<open>
  Claim C3, an instance: three chunks in a buffer with the default budget, and a batch
  pop of up to ten chunks from a queue holding one.
\<close>

theorem fifo_and_batch_pop_witness:
  "(let s3 = Push 40 2 (Push 40 1 (Push 40 0 (AudioBuffer_new default_maxSizeBytes)
                 chunk_a 48000 1) chunk_b 48000 1) chunk_c 48000 1;
        p1 = Pop 40 s3; p2 = Pop 40 (snd p1); p3 = Pop 40 (snd p2)
    in fst p1 = Some \<lparr>data = chunk_a, timestamp = 0, sampleRate = 48000, channels = 1\<rparr>
     \<and> fst p2 = Some \<lparr>data = chunk_b, timestamp = 1, sampleRate = 48000, channels = 1\<rparr>
     \<and> fst p3 = Some \<lparr>data = chunk_c, timestamp = 2, sampleRate = 48000, channels = 1\<rparr>
     \<and> chunks (snd p3) = [])
   \<and> (let s3 = PushFloat32 40 2 (PushFloat32 40 1 (PushFloat32 40 0
                 (AudioBuffer_new default_maxSizeBytes) [0] 48000 1) [1] 48000 1) [2] 48000 1;
            p1 = PopMultipleFloat32 s3 1; p2 = PopMultipleFloat32 (snd p1) 1;
            p3 = PopMultipleFloat32 (snd p2) 1
        in fst p1 = [\<lparr>data = [0], timestamp = 0, sampleRate = 48000, channels = 1\<rparr>]
         \<and> fst p2 = [\<lparr>data = [1], timestamp = 1, sampleRate = 48000, channels = 1\<rparr>]
         \<and> fst p3 = [\<lparr>data = [2], timestamp = 2, sampleRate = 48000, channels = 1\<rparr>]
         \<and> float32Chunks (snd p3) = [])
   \<and> length (fst (PopMultiple 40 demo_evicting 10)) = 1"
proof -
  have h: "chunks (AudioBuffer_new default_maxSizeBytes) = [] \<and> chunk_a \<noteq> [] \<and> chunk_b \<noteq> []
       \<and> chunk_c \<noteq> []
       \<and> unat (currentSizeBytes (AudioBuffer_new default_maxSizeBytes))
           + chunk_bytes 40 \<lparr>data = chunk_a, timestamp = 0, sampleRate = 48000, channels = 1\<rparr>
           + chunk_bytes 40 \<lparr>data = chunk_b, timestamp = 1, sampleRate = 48000, channels = 1\<rparr>
           + chunk_bytes 40 \<lparr>data = chunk_c, timestamp = 2, sampleRate = 48000, channels = 1\<rparr>
         \<le> unat (maxSizeBytes (AudioBuffer_new default_maxSizeBytes))"
    by (simp add: AudioBuffer_new_def default_maxSizeBytes_def chunk_bytes_def
          chunk_a_def chunk_b_def chunk_c_def)
  have g: "float32Chunks (AudioBuffer_new default_maxSizeBytes) = []
       \<and> [0 :: float32] \<noteq> [] \<and> [1 :: float32] \<noteq> [] \<and> [2 :: float32] \<noteq> []"
    by (simp add: AudioBuffer_new_def)
  have l: "length (chunks demo_evicting) = 1" by (simp add: demo_evicting_eq)
  note t = fifo_and_batch_pop [of 40 "AudioBuffer_new default_maxSizeBytes" 0
      chunk_a chunk_b chunk_c 0 48000 1 1 48000 1 2 48000 1 "[0]" "[1]" "[2]"]
  note u = fifo_and_batch_pop [of 40 demo_evicting 10]
  from t h g u l show ?thesis by simp
qed

section \<open>The converter: stereo to mono\<close>

lemma sint16_bounds:
  fixes w :: int16_t
  shows "- 32768 \<le> sint w" and "sint w < 32768"
  using sint_ge [of w] sint_lt [of w] by simp_all

lemma sint_widen [simp]: "sint (scast (w :: int16_t) :: int32_t) = sint w"
  by (rule sint_up_scast) (simp add: is_up)

lemma sint_sum_no_overflow:
  "sint ((scast (l :: int16_t) :: int32_t) + scast (r :: int16_t)) = sint l + sint r"
proof -
  have "- (2 ^ 31) \<le> sint l + sint r" "sint l + sint r < 2 ^ 31"
    using sint16_bounds [of l] sint16_bounds [of r] by simp_all
  then show ?thesis
    by (simp add: sint_word_add signed_take_bit_int_eq_self)
qed

lemma sint_narrow:
  fixes x :: int32_t
  assumes "- 32768 \<le> sint x" "sint x < 32768"
  shows "sint (ucast x :: int16_t) = sint x"
proof -
  have "(ucast :: int32_t \<Rightarrow> int16_t) = scast"
    by (rule down_cast_same) (simp add: is_down)
  then have "(ucast x :: int16_t) = scast x" by simp
  also have "\<dots> = word_of_int (sint x)" by (rule scast_eq)
  finally have "sint (ucast x :: int16_t) = sint (word_of_int (sint x) :: int16_t)"
    by (rule arg_cong)
  then have "sint (ucast x :: int16_t) = signed_take_bit 15 (sint x)"
    by (simp only: sint_sbintrunc') simp
  with assms show ?thesis by (simp add: signed_take_bit_int_eq_self)
qed

lemma sint_mono_of_pair: "sint (mono_of_pair l r) = (sint l + sint r) div 2"
proof -
  let ?x = "signed_drop_bit 1 ((scast l :: int32_t) + scast r)"
  have x: "sint ?x = (sint l + sint r) div 2"
    by (simp add: sint_signed_drop_bit_eq sint_sum_no_overflow drop_bit_eq_div)
  have "- 32768 \<le> sint ?x" "sint ?x < 32768"
    using sint16_bounds [of l] sint16_bounds [of r] unfolding x by simp_all
  then have "sint (ucast ?x :: int16_t) = sint ?x" by (rule sint_narrow)
  with x show ?thesis by (simp add: mono_of_pair_def Let_def)
qed

lemma StereoToMono_loop_length: "length (StereoToMono_loop xs) = length xs div 2"
  by (induction xs rule: StereoToMono_loop.induct) simp_all

lemma StereoToMono_loop_nth:
  "i < length xs div 2 \<Longrightarrow>
     StereoToMono_loop xs ! i = mono_of_pair (xs ! (2 * i)) (xs ! (2 * i + 1))"
proof (induction xs arbitrary: i rule: StereoToMono_loop.induct)
  case (1 l r rest)
  then show ?case by (cases i) simp_all
qed simp_all

lemma StereoToMono_odd: "odd (length xs) \<Longrightarrow> StereoToMono xs = []"
  by (simp add: StereoToMono_def odd_iff_mod_2_eq_one)

lemma StereoToMono_even: "even (length xs) \<Longrightarrow> StereoToMono xs = StereoToMono_loop xs"
  by (simp add: StereoToMono_def)

text \<open>
  Claim C7.  In \<open>ConvertToPCM16\<close>, when the source has more than one channel and
  \<open>targetChannels\<close> is 1, the result is \<open>StereoToMono\<close> of the decoded samples.  On an
  input of even length \<open>StereoToMono\<close> returns one sample per adjacent pair, whose value
  is \<open>(left + right) >> 1\<close>, the sum halved rounding down; the 32-bit sum of two 16-bit
  samples is their exact sum, so nothing overflows.
  \<open>StereoToMono([100, 200, -100, -200]) = [150, -150]\<close>.
\<close>

theorem stereo_to_mono_average:
  "(AudioSample.data input \<noteq> [] \<and> decode_int16 input = Inr (Some samples)
      \<and> AudioFormat.channels (format input) > 1 \<longrightarrow>
        ConvertToPCM16 input rate 1 = Inr (StereoToMono samples))
   \<and> (even (length xs) \<longrightarrow>
        length (StereoToMono xs) = length xs div 2
        \<and> (\<forall>i < length xs div 2.
              sint (StereoToMono xs ! i) = (sint (xs ! (2 * i)) + sint (xs ! (2 * i + 1))) div 2))
   \<and> sint ((scast (l :: int16_t) :: int32_t) + scast (r :: int16_t)) = sint l + sint r
   \<and> sint (mono_of_pair l r) = (sint l + sint r) div 2
   \<and> StereoToMono [100, 200, - 100, - 200] = [150, - 150]"
proof (intro conjI impI allI)
  assume "AudioSample.data input \<noteq> [] \<and> decode_int16 input = Inr (Some samples)
      \<and> AudioFormat.channels (format input) > 1"
  then show "ConvertToPCM16 input rate 1 = Inr (StereoToMono samples)"
    by (simp add: ConvertToPCM16_def)
next
  assume "even (length xs)"
  then show "length (StereoToMono xs) = length xs div 2"
    by (simp add: StereoToMono_even StereoToMono_loop_length)
next
  fix i
  assume "even (length xs)" "i < length xs div 2"
  then show "sint (StereoToMono xs ! i) = (sint (xs ! (2 * i)) + sint (xs ! (2 * i + 1))) div 2"
    by (simp add: StereoToMono_even StereoToMono_loop_nth sint_mono_of_pair)
next
  show "sint ((scast l :: int32_t) + scast r) = sint l + sint r"
    by (rule sint_sum_no_overflow)
  show "sint (mono_of_pair l r) = (sint l + sint r) div 2"
    by (rule sint_mono_of_pair)
  show "StereoToMono [100, 200, - 100, - 200] = [150, - 150]"
    by (simp add: StereoToMono_def mono_of_pair_def)
qed


lemma upt_4: "[0..<4] = [0, 1, 2, 3]" by (simp add: upt_rec)

lemma upt_2: "[0..<2] = [0, 1]" by (simp add: upt_rec)


lemma demo_stereo16_decode:
  "decode_int16 demo_stereo16 = Inr (Some [100, 200, - 100, - 200])"
  by (simp add: decode_int16_def demo_stereo16_def demo_sample_def demo_format_def Let_def
        read_int16_def upt_4)

text \<open>
  Claim C7, an instance: the 16-bit stereo sample \<open>[100, 200, -100, -200]\<close> converted
  with \<open>targetChannels = 1\<close>.
\<close>

theorem stereo_to_mono_average_witness:
  "ConvertToPCM16 demo_stereo16 48000 1 = Inr [150, - 150]
   \<and> length (StereoToMono [100, 200, - 100, - 200]) = 2
   \<and> sint (StereoToMono [100, 200, - 100, - 200] ! 1) = (sint (- 100 :: int16_t) + sint (- 200 :: int16_t)) div 2"
proof -
  have a: "AudioSample.data demo_stereo16 \<noteq> []
      \<and> decode_int16 demo_stereo16 = Inr (Some [100, 200, - 100, - 200])
      \<and> AudioFormat.channels (format demo_stereo16) > 1"
    by (simp add: demo_stereo16_decode) (simp add: demo_stereo16_def demo_sample_def demo_format_def)
  have b: "even (length [100, 200, - 100, - 200 :: int16_t])" by simp
  have c: "(1 :: nat) < length [100, 200, - 100, - 200 :: int16_t] div 2" by simp
  note t = stereo_to_mono_average [of demo_stereo16 "[100, 200, - 100, - 200]" 48000
      "[100, 200, - 100, - 200]"]
  from t a b c show ?thesis by simp
qed

text \<open>
  Claim C9.  On an input of odd length \<open>StereoToMono\<close> returns the empty sequence: no
  sample is kept.
\<close>

theorem odd_stereo_discarded: "odd (length xs) \<Longrightarrow> StereoToMono xs = []"
  by (simp add: StereoToMono_def odd_iff_mod_2_eq_one)


text \<open>Claim C9, an instance: three samples.\<close>

theorem odd_stereo_discarded_witness:
  "odd (length [100, 200, 300 :: int16_t]) \<and> StereoToMono [100, 200, 300] = []"
proof -
  have o: "odd (length [100, 200, 300 :: int16_t])" by simp
  from odd_stereo_discarded [OF o] o show ?thesis by simp
qed

section \<open>The converter: 24-bit samples\<close>

lemma ff000000: "(0xFF000000 :: int32_t) = push_bit 24 (mask 8)"
  by (simp add: mask_eq_exp_minus_1)

lemma x800000: "(0x800000 :: int32_t) = 2 ^ 23"
  by simp

lemma sample24_top_bytes:
  "sample24_to_int16 b0 b1 b2 = ucast b1 OR push_bit 8 (ucast b2)"
  unfolding sample24_to_int16_def Let_def ff000000 x800000 and_exp_eq_0_iff_not_bit
  apply (rule bit_word_eqI)
  apply (auto simp: bit_simps dest: bit_imp_le_length)
  done

lemma uint8_bounds: "0 \<le> uint (b :: uint8_t)" "uint (b :: uint8_t) < 256"
  using uint_lt2p [of b] by simp_all

lemma small_div_odd:
  fixes k :: int
  assumes "0 \<le> k" "k < 2 * m" "0 < m"
  shows "odd (k div m) \<longleftrightarrow> m \<le> k"
proof (cases "k < m")
  case True
  with assms show ?thesis by simp
next
  case False
  with assms have "k div m = 1"
    by (intro int_div_pos_eq [where r = "k - m"]) simp_all
  with False show ?thesis by simp
qed

lemma uint_top_bytes:
  "uint (ucast (b1 :: uint8_t) OR push_bit 8 (ucast (b2 :: uint8_t)) :: int16_t)
     = uint b1 + 256 * uint b2"
proof -
  let ?a = "ucast b1 :: int16_t" and ?b = "push_bit 8 (ucast b2) :: int16_t"
  have a: "uint ?a = uint b1" by (rule uint_up_ucast) (simp add: is_up)
  have "uint (ucast b2 :: int16_t) = uint b2" by (rule uint_up_ucast) (simp add: is_up)
  then have b: "uint ?b = 256 * uint b2"
    using uint8_bounds [of b2] by (simp add: push_bit_eq_mult uint_word_ariths)
  have "?a + ?b = ?a OR ?b"
    by (rule disjunctive_add) (auto simp: bit_simps dest: bit_imp_le_length)
  moreover have "uint ?a + uint ?b < 2 ^ LENGTH(16)"
    using uint8_bounds [of b1] uint8_bounds [of b2] by (simp add: a b)
  then have "uint (?a + ?b) = uint ?a + uint ?b" by (simp only: uint_add_lem)
  ultimately show ?thesis by (simp add: a b)
qed

lemma sint16_of_uint:
  "sint (x :: int16_t) = (if uint x < 32768 then uint x else uint x - 65536)"
proof -
  have b: "0 \<le> uint x" "uint x < 65536" using uint_lt2p [of x] by simp_all
  then have t: "take_bit 16 (uint x) = uint x" by (simp add: take_bit_int_eq_self)
  have "bit (uint x) 15 \<longleftrightarrow> 32768 \<le> uint x"
    using small_div_odd [of "uint x" 32768] b by (simp add: bit_iff_odd)
  then show ?thesis
    by (simp add: sint_uint signed_take_bit_eq_take_bit_minus t)
qed

lemma le24_arith:
  fixes u0 u1 u2 :: int
  assumes "0 \<le> u0" "u0 < 256" "0 \<le> u1" "u1 < 256" "0 \<le> u2" "u2 < 256"
  shows "0 \<le> u0 + 256 * u1 + 65536 * u2"
    and "u0 + 256 * u1 + 65536 * u2 < 2 * 8388608"
    and "8388608 \<le> u0 + 256 * u1 + 65536 * u2 \<longleftrightarrow> 128 \<le> u2"
    and "u1 + 256 * u2 < 32768 \<longleftrightarrow> u2 < 128"
    and "(u0 + 256 * u1 + 65536 * u2) div 256 = u1 + 256 * u2"
    and "(u0 + 256 * u1 + 65536 * u2 - 16777216) div 256 = u1 + 256 * u2 - 65536"
  using assms by auto

lemmas le24_bytes =
  le24_arith [OF uint_ge_0 uint8_bounds(2) uint_ge_0 uint8_bounds(2) uint_ge_0 uint8_bounds(2)]

lemma bit23_le24: "bit (le24_value b0 b1 b2) 23 \<longleftrightarrow> 128 \<le> uint b2"
  using small_div_odd [of "le24_value b0 b1 b2" 8388608] le24_bytes(1-3) [of b0 b1 b2]
  by (simp add: bit_iff_odd le24_value_def)

lemma sint_sample24: "sint (sample24_to_int16 b0 b1 b2) = decode24_spec b0 b1 b2"
proof -
  have s: "sint (sample24_to_int16 b0 b1 b2) =
      (if uint b2 < 128 then uint b1 + 256 * uint b2 else uint b1 + 256 * uint b2 - 65536)"
    using le24_bytes(4) [of b1 b2]
    by (simp add: sample24_top_bytes sint16_of_uint uint_top_bytes)
  have e: "sign_extend_24 (le24_value b0 b1 b2) =
      (if uint b2 < 128 then le24_value b0 b1 b2 else le24_value b0 b1 b2 - 16777216)"
    by (simp add: sign_extend_24_def bit23_le24 not_less)
  show ?thesis
  proof (cases "uint b2 < 128")
    case True
    with le24_bytes(5) [of b0 b1 b2] show ?thesis
      unfolding decode24_spec_def e by (simp add: s le24_value_def)
  next
    case False
    with le24_bytes(6) [of b0 b1 b2] show ?thesis
      unfolding decode24_spec_def e by (simp add: s le24_value_def)
  qed
qed

lemma decode_int16_24:
  "bitsPerSample (format input) = 24 \<Longrightarrow>
   decode_int16 input =
     Inr (Some (map (\<lambda>i. sample24_to_int16 (AudioSample.data input ! (i * 3))
                          (AudioSample.data input ! (i * 3 + 1))
                          (AudioSample.data input ! (i * 3 + 2)))
                [0..<length (AudioSample.data input) div 3]))"
  by (simp add: decode_int16_def Let_def)

text \<open>
  Claim C5.  For a non-empty input of 24 bits per sample, step 1 of \<open>ConvertToPCM16\<close>
  yields one sample per complete group of three bytes; sample \<open>i\<close> is computed from the
  bytes \<open>3i\<close>, \<open>3i + 1\<close>, \<open>3i + 2\<close> read as a little-endian 24-bit value, sign-extended to
  32 bits by testing bit 23 and shifted right arithmetically by 8 bits, and its value is
  the one the specification's formula gives.  The result of \<open>ConvertToPCM16\<close> is this
  list, passed through \<open>StereoToMono\<close> when the source has more than one channel and
  \<open>targetChannels\<close> is 1.  The bytes \<open>0x00, 0x00, 0x80\<close> decode to \<open>-32768\<close> and
  \<open>0xFF, 0xFF, 0x7F\<close> to \<open>32767\<close>.
\<close>

theorem decode_24bit:
  "(AudioSample.data input \<noteq> [] \<and> bitsPerSample (format input) = 24 \<longrightarrow>
      (\<exists>samples.
          decode_int16 input = Inr (Some samples)
        \<and> length samples = length (AudioSample.data input) div 3
        \<and> (\<forall>i < length samples.
              samples ! i = sample24_to_int16 (AudioSample.data input ! (i * 3))
                              (AudioSample.data input ! (i * 3 + 1))
                              (AudioSample.data input ! (i * 3 + 2))
            \<and> sint (samples ! i) = decode24_spec (AudioSample.data input ! (i * 3))
                              (AudioSample.data input ! (i * 3 + 1))
                              (AudioSample.data input ! (i * 3 + 2)))
        \<and> ConvertToPCM16 input rate tch =
            Inr (if AudioFormat.channels (format input) > 1 \<and> tch = 1
                 then StereoToMono samples else samples)))
   \<and> sint (sample24_to_int16 b0 b1 b2) = decode24_spec b0 b1 b2
   \<and> sint (sample24_to_int16 0x00 0x00 0x80) = - 32768
   \<and> sint (sample24_to_int16 0xFF 0xFF 0x7F) = 32767"
proof (intro conjI impI)
  assume a: "AudioSample.data input \<noteq> [] \<and> bitsPerSample (format input) = 24"
  let ?samples = "map (\<lambda>i. sample24_to_int16 (AudioSample.data input ! (i * 3))
                          (AudioSample.data input ! (i * 3 + 1))
                          (AudioSample.data input ! (i * 3 + 2)))
                [0..<length (AudioSample.data input) div 3]"
  from a have d: "decode_int16 input = Inr (Some ?samples)" by (simp add: decode_int16_24)
  have "length ?samples = length (AudioSample.data input) div 3" by simp
  moreover have "\<forall>i < length ?samples.
              ?samples ! i = sample24_to_int16 (AudioSample.data input ! (i * 3))
                              (AudioSample.data input ! (i * 3 + 1))
                              (AudioSample.data input ! (i * 3 + 2))
            \<and> sint (?samples ! i) = decode24_spec (AudioSample.data input ! (i * 3))
                              (AudioSample.data input ! (i * 3 + 1))
                              (AudioSample.data input ! (i * 3 + 2))"
    by (simp add: sint_sample24)
  moreover from a d have "ConvertToPCM16 input rate tch =
            Inr (if AudioFormat.channels (format input) > 1 \<and> tch = 1
                 then StereoToMono ?samples else ?samples)"
    by (simp add: ConvertToPCM16_def)
  ultimately show "\<exists>samples.
          decode_int16 input = Inr (Some samples)
        \<and> length samples = length (AudioSample.data input) div 3
        \<and> (\<forall>i < length samples.
              samples ! i = sample24_to_int16 (AudioSample.data input ! (i * 3))
                              (AudioSample.data input ! (i * 3 + 1))
                              (AudioSample.data input ! (i * 3 + 2))
            \<and> sint (samples ! i) = decode24_spec (AudioSample.data input ! (i * 3))
                              (AudioSample.data input ! (i * 3 + 1))
                              (AudioSample.data input ! (i * 3 + 2)))
        \<and> ConvertToPCM16 input rate tch =
            Inr (if AudioFormat.channels (format input) > 1 \<and> tch = 1
                 then StereoToMono samples else samples)"
    using d by blast
next
  show "sint (sample24_to_int16 b0 b1 b2) = decode24_spec b0 b1 b2"
    by (rule sint_sample24)
  show "sint (sample24_to_int16 0x00 0x00 0x80) = - 32768"
    by (simp add: sample24_to_int16_def)
  show "sint (sample24_to_int16 0xFF 0xFF 0x7F) = 32767"
    by (simp add: sample24_to_int16_def)
qed

lemma demo_mono24_convert: "ConvertToPCM16 demo_mono24 48000 1 = Inr [- 32768, 32767]"
  by (simp add: ConvertToPCM16_def decode_int16_def demo_mono24_def demo_sample_def
        demo_format_def Let_def sample24_to_int16_def upt_2)

text \<open>Claim C5, an instance: the two boundary triplets as one mono sample buffer.\<close>

theorem decode_24bit_witness:
  "AudioSample.data demo_mono24 \<noteq> [] \<and> bitsPerSample (format demo_mono24) = 24
   \<and> ConvertToPCM16 demo_mono24 48000 1 = Inr [- 32768, 32767]
   \<and> (\<exists>samples. decode_int16 demo_mono24 = Inr (Some samples) \<and> length samples = 2
         \<and> ConvertToPCM16 demo_mono24 48000 1 = Inr samples)
   \<and> decode24_spec 0x00 0x00 0x80 = - 32768
   \<and> decode24_spec 0xFF 0xFF 0x7F = 32767"
proof -
  have a: "AudioSample.data demo_mono24 \<noteq> [] \<and> bitsPerSample (format demo_mono24) = 24"
    by (simp add: demo_mono24_def demo_sample_def demo_format_def)
  have l: "length (AudioSample.data demo_mono24) div 3 = 2"
    by (simp add: demo_mono24_def demo_sample_def)
  have c: "\<not> AudioFormat.channels (format demo_mono24) > 1"
    by (simp add: demo_mono24_def demo_sample_def demo_format_def)
  note t = decode_24bit [of demo_mono24 48000 1 "0x00" "0x00" "0x80"]
  from t a obtain samples where s: "decode_int16 demo_mono24 = Inr (Some samples)"
    "length samples = length (AudioSample.data demo_mono24) div 3"
    "ConvertToPCM16 demo_mono24 48000 1 =
       Inr (if AudioFormat.channels (format demo_mono24) > 1 \<and> (1 :: uint16_t) = 1
            then StereoToMono samples else samples)"
    by blast
  from s l c have e: "\<exists>samples. decode_int16 demo_mono24 = Inr (Some samples) \<and> length samples = 2
         \<and> ConvertToPCM16 demo_mono24 48000 1 = Inr samples"
    by auto
  have v: "decode24_spec 0x00 0x00 0x80 = - 32768"
    using t by simp
  have w: "decode24_spec 0xFF 0xFF 0x7F = 32767"
    using decode_24bit [of demo_mono24 48000 1 "0xFF" "0xFF" "0x7F"] by simp
  from a e v w demo_mono24_convert show ?thesis by simp
qed

section \<open>The converter: unsupported bit depths\<close>

text \<open>
  Claim C6.  On a non-empty input whose bit depth is neither 16 nor 32,
  \<open>ConvertToMonoFloat32\<close> returns the empty sequence, and on one whose bit depth is none
  of 16, 24 and 32 \<open>ConvertToPCM16\<close> returns the empty sequence: a normal return
  (\<open>Inr\<close>), with no error.
\<close>

theorem unsupported_bit_depth:
  "(AudioSample.data input \<noteq> [] \<and> bitsPerSample (format input) \<notin> {16, 32} \<longrightarrow>
      ConvertToMonoFloat32 fp input = Inr [])
   \<and> (AudioSample.data input \<noteq> [] \<and> bitsPerSample (format input) \<notin> {16, 24, 32} \<longrightarrow>
      ConvertToPCM16 input rate tch = Inr [])"
  by (simp add: ConvertToMonoFloat32_def ConvertToPCM16_def decode_float_def decode_int16_def
        Let_def)

text \<open>Claim C6, instances: an 8-bit input for both converters, a 24-bit input for the float one.\<close>

theorem unsupported_bit_depth_witness:
  "AudioSample.data demo_mono8 \<noteq> [] \<and> bitsPerSample (format demo_mono8) \<notin> {16, 24, 32}
   \<and> (\<forall>fp. ConvertToMonoFloat32 fp demo_mono8 = Inr [])
   \<and> ConvertToPCM16 demo_mono8 48000 1 = Inr []
   \<and> AudioSample.data demo_mono24 \<noteq> [] \<and> bitsPerSample (format demo_mono24) \<notin> {16, 32}
   \<and> (\<forall>fp. ConvertToMonoFloat32 fp demo_mono24 = Inr [])"
proof -
  have a: "AudioSample.data demo_mono8 \<noteq> [] \<and> bitsPerSample (format demo_mono8) \<notin> {16, 24, 32}"
    by (simp add: demo_mono8_def demo_sample_def demo_format_def)
  have b: "AudioSample.data demo_mono24 \<noteq> [] \<and> bitsPerSample (format demo_mono24) \<notin> {16, 32}"
    by (simp add: demo_mono24_def demo_sample_def demo_format_def)
  from a have a': "bitsPerSample (format demo_mono8) \<notin> {16, 32}" by simp
  have "ConvertToMonoFloat32 fp demo_mono8 = Inr []" for fp
    using unsupported_bit_depth [of demo_mono8 fp 48000 1] a a' by blast
  moreover have "ConvertToMonoFloat32 fp demo_mono24 = Inr []" for fp
    using unsupported_bit_depth [of demo_mono24 fp 48000 1] b by blast
  moreover have "ConvertToPCM16 demo_mono8 48000 1 = Inr []"
    using unsupported_bit_depth [of demo_mono8 _ 48000 1] a by blast
  ultimately show ?thesis using a b by blast
qed

section \<open>The converter: full-scale floats\<close>

lemma f32_value_one [simp]: "f32_value f32_one = Finite 1"
  by (simp add: f32_value_def f32_one_def Let_def bit_numeral_rec)

lemma f32_value_minus_one [simp]: "f32_value f32_minus_one = Finite (- 1)"
  by (simp add: f32_value_def f32_minus_one_def Let_def bit_numeral_rec)












section \<open>The bounded buffer: the duration of the queued audio\<close>

lemma duration_loop_zero_channels:
  "\<exists>c\<in>set cs. channels c = 0 \<Longrightarrow> duration_loop cs tot rate = Inl DivisionByZero"
  by (induction cs arbitrary: tot rate) auto

lemma duration_loop_nonzero_channels:
  "\<forall>c\<in>set cs. channels c \<noteq> 0 \<Longrightarrow>
     duration_loop cs tot rate =
       Inr (tot + sum_list (map (\<lambda>c. word_of_nat (length (data c)) div ucast (channels c)) cs),
            if cs = [] then rate else sampleRate (last cs))"
  by (induction cs arbitrary: tot rate) (auto simp: algebra_simps)

lemma unat_ucast_16_64 [simp]: "unat (ucast (w :: uint16_t) :: uint64_t) = unat w"
proof -
  have "uint (ucast w :: uint64_t) = uint w" by (rule uint_up_ucast) (simp add: is_up)
  then show ?thesis by (simp only: unat_eq_nat_uint)
qed

lemma unat_ucast_32_64 [simp]: "unat (ucast (w :: uint32_t) :: uint64_t) = unat w"
proof -
  have "uint (ucast w :: uint64_t) = uint w" by (rule uint_up_ucast) (simp add: is_up)
  then show ?thesis by (simp only: unat_eq_nat_uint)
qed

lemma word_eq_of_unat: "unat (x :: 'a::len word) = n \<Longrightarrow> x = word_of_nat n"
  by auto

lemma frames_word:
  assumes "length (data c) < 2 ^ 64"
  shows "(word_of_nat (length (data c)) div ucast (channels c) :: uint64_t)
           = word_of_nat (frames_of (c :: AudioChunk))"
proof -
  have "unat (word_of_nat (length (data c)) div ucast (channels c) :: uint64_t)
      = length (data c) div unat (channels c)"
    using assms by (simp add: unat_div unat_of_nat take_bit_nat_eq_self)
  then show ?thesis
    unfolding frames_of_def by (rule word_eq_of_unat)
qed

lemma sum_frames_word:
  assumes "sum_list (map (\<lambda>c. length (data c)) cs) < 2 ^ 64"
  shows "sum_list (map (\<lambda>c. word_of_nat (length (data c)) div ucast (channels c)) cs)
           = (word_of_nat (sum_list (map frames_of (cs :: AudioChunk list))) :: uint64_t)"
  using assms
proof (induction cs)
  case Nil
  then show ?case by simp
next
  case (Cons c cs)
  then have "length (data c) < 2 ^ 64" "sum_list (map (\<lambda>c. length (data c)) cs) < 2 ^ 64"
    by simp_all
  with Cons.IH show ?case by (simp add: frames_word)
qed

lemma frames_le_samples:
  "sum_list (map frames_of cs) \<le> sum_list (map (\<lambda>c. length (data c)) cs)"
proof (induction cs)
  case (Cons c cs)
  have "frames_of c \<le> length (data c)" by (simp add: frames_of_def)
  with Cons show ?case by simp
qed simp

lemma GetBufferedDurationMs_empty: "chunks s = [] \<Longrightarrow> GetBufferedDurationMs s = Inr 0"
  by (simp add: GetBufferedDurationMs_def)

lemma GetBufferedDurationMs_zero_channels:
  "\<exists>c\<in>set (chunks s). channels c = 0 \<Longrightarrow> GetBufferedDurationMs s = Inl DivisionByZero"
  by (auto simp: GetBufferedDurationMs_def duration_loop_zero_channels)

lemma GetBufferedDurationMs_zero_rate:
  "chunks s \<noteq> [] \<Longrightarrow> \<forall>c\<in>set (chunks s). channels c \<noteq> 0 \<Longrightarrow>
     sampleRate (last (chunks s)) = 0 \<Longrightarrow> GetBufferedDurationMs s = Inr 0"
  by (simp add: GetBufferedDurationMs_def duration_loop_nonzero_channels)

lemma GetBufferedDurationMs_value:
  assumes ne: "chunks s \<noteq> []"
    and ch: "\<forall>c\<in>set (chunks s). channels c \<noteq> 0"
    and fit: "total_samples s * 1000 < 2 ^ 64"
  shows "GetBufferedDurationMs s = Inr (word_of_nat (duration_ms s))"
proof (cases "sampleRate (last (chunks s)) = 0")
  case True
  with ne ch show ?thesis
    by (simp add: GetBufferedDurationMs_zero_rate duration_ms_def)
next
  case False
  let ?r = "sampleRate (last (chunks s))"
  from fit have n: "total_samples s < 2 ^ 64" by simp
  have le: "total_frames s \<le> total_samples s"
    unfolding total_frames_def total_samples_def by (rule frames_le_samples)
  with fit have f: "total_frames s * 1000 < 2 ^ 64"
    by (meson le_less_trans mult_le_mono1)
  then have f1: "total_frames s < 2 ^ 64" by simp
  have w: "sum_list (map (\<lambda>c. word_of_nat (length (data c)) div ucast (channels c)) (chunks s))
      = (word_of_nat (total_frames s) :: uint64_t)"
    unfolding total_frames_def using n [unfolded total_samples_def] by (rule sum_frames_word)
  have u: "unat (word_of_nat (total_frames s) * 1000 :: uint64_t) = total_frames s * 1000"
  proof -
    have "(word_of_nat (total_frames s) * 1000 :: uint64_t) = word_of_nat (total_frames s * 1000)"
      by simp
    then show ?thesis using f by (simp only: unat_of_nat) (simp add: take_bit_nat_eq_self)
  qed
  have "unat ((word_of_nat (total_frames s) * 1000 :: uint64_t) div ucast ?r)
      = total_frames s * 1000 div unat ?r"
    by (simp only: unat_div u unat_ucast_32_64)
  then have "(word_of_nat (total_frames s) * 1000 :: uint64_t) div ucast ?r
      = word_of_nat (total_frames s * 1000 div unat ?r)"
    by (rule word_eq_of_unat)
  with ne ch False show ?thesis
    by (simp add: GetBufferedDurationMs_def duration_loop_nonzero_channels w duration_ms_def)
qed

lemma duration_ms_exact:
  "unat r \<noteq> 0 \<Longrightarrow>
     int (f * 1000 div unat r) = \<lfloor>(of_nat f :: rat) / of_nat (unat r) * 1000\<rfloor>"
proof -
  have "(of_nat f :: rat) / of_nat (unat r) * 1000 = of_nat (f * 1000) / of_nat (unat r)"
    by simp
  then show ?thesis by (simp only: floor_divide_of_nat_eq)
qed

lemma Push_fresh:
  assumes "d \<noteq> []" "unat hdr + 2 * length d \<le> unat B"
  shows "Push hdr now (AudioBuffer_new B) d r c =
     \<lparr>chunks = [\<lparr>data = d, timestamp = now, sampleRate = r, channels = c\<rparr>],
      float32Chunks = [], maxSizeBytes = B,
      currentSizeBytes = GetChunkSize hdr \<lparr>data = d, timestamp = now, sampleRate = r, channels = c\<rparr>\<rparr>"
proof -
  have "unat (currentSizeBytes (AudioBuffer_new B))
      + chunk_bytes hdr \<lparr>data = d, timestamp = now, sampleRate = r, channels = c\<rparr>
      \<le> unat (maxSizeBytes (AudioBuffer_new B))"
    using assms(2) by (simp add: AudioBuffer_new_def chunk_bytes_def)
  from Push_within_budget [OF assms(1) this] show ?thesis
    by (simp add: AudioBuffer_new_def)
qed

lemma duration_ms_bound: "duration_ms s \<le> total_samples s * 1000"
proof -
  have "total_frames s \<le> total_samples s"
    unfolding total_frames_def total_samples_def by (rule frames_le_samples)
  then have a: "total_frames s * 1000 \<le> total_samples s * 1000" by simp
  have b: "total_frames s * 1000 div n \<le> total_frames s * 1000" for n
    by (rule div_le_dividend)
  show ?thesis
  proof (cases "chunks s = [] \<or> sampleRate (last (chunks s)) = 0")
    case True
    then show ?thesis by (simp add: duration_ms_def)
  next
    case False
    then have "duration_ms s = total_frames s * 1000 div unat (sampleRate (last (chunks s)))"
      by (simp add: duration_ms_def)
    with a b [of "unat (sampleRate (last (chunks s)))"] show ?thesis by linarith
  qed
qed

text \<open>
  Claim C4, as amended.  \<open>GetBufferedDurationMs\<close> reads the PCM16 queue only and returns
  0 when it is empty.  When every queued chunk has a channel count other than zero (and
  1000 times the number of queued samples fits 64 bits), it returns the frames of the
  queue, each chunk's sample count divided by that chunk's own channel count rounding
  down, times 1000, divided by the sample rate of the newest queued chunk rounding
  down; this is the floor of frames / rate * 1000 in exact arithmetic; it returns 0
  when that rate is 0.  After one push of 960 samples at 48000 Hz mono into a fresh buffer
  whose budget holds the chunk, it returns 20, \<open>Pop\<close> returns that chunk and \<open>IsEmpty\<close>
  holds.
\<close>

theorem buffered_duration:
  "(chunks s = [] \<longrightarrow> GetBufferedDurationMs s = Inr 0)
   \<and> (chunks s = chunks s' \<longrightarrow> GetBufferedDurationMs s = GetBufferedDurationMs s')
   \<and> (chunks s \<noteq> [] \<and> (\<forall>c\<in>set (chunks s). channels c \<noteq> 0)
        \<and> total_samples s * 1000 < 2 ^ 64 \<longrightarrow>
          GetBufferedDurationMs s = Inr (word_of_nat (duration_ms s))
        \<and> duration_ms s < 2 ^ 64
        \<and> (sampleRate (last (chunks s)) = 0 \<longrightarrow> GetBufferedDurationMs s = Inr 0)
        \<and> (sampleRate (last (chunks s)) \<noteq> 0 \<longrightarrow>
              int (duration_ms s) =
                \<lfloor>(of_nat (total_frames s) :: rat) / of_nat (unat (sampleRate (last (chunks s))))
                   * 1000\<rfloor>))
   \<and> (length d = 960 \<and> unat hdr + 1920 \<le> unat B \<longrightarrow>
        (let s1 = Push hdr now (AudioBuffer_new B) d 48000 1
         in GetBufferedDurationMs s1 = Inr 20
          \<and> fst (Pop hdr s1)
               = Some \<lparr>data = d, timestamp = now, sampleRate = 48000, channels = 1\<rparr>
          \<and> IsEmpty (snd (Pop hdr s1))))"
proof (intro conjI impI)
  assume "chunks s = []"
  then show "GetBufferedDurationMs s = Inr 0" by (rule GetBufferedDurationMs_empty)
next
  assume "chunks s = chunks s'"
  then show "GetBufferedDurationMs s = GetBufferedDurationMs s'"
    by (simp add: GetBufferedDurationMs_def)
next
  assume a: "chunks s \<noteq> [] \<and> (\<forall>c\<in>set (chunks s). channels c \<noteq> 0)
        \<and> total_samples s * 1000 < 2 ^ 64"
  then show v: "GetBufferedDurationMs s = Inr (word_of_nat (duration_ms s))"
    by (simp add: GetBufferedDurationMs_value)
  from a duration_ms_bound [of s] show "duration_ms s < 2 ^ 64" by linarith
  {
    assume "sampleRate (last (chunks s)) = 0"
    with a show "GetBufferedDurationMs s = Inr 0"
      by (simp add: GetBufferedDurationMs_zero_rate)
  }
  {
    assume r: "sampleRate (last (chunks s)) \<noteq> 0"
    then have "unat (sampleRate (last (chunks s))) \<noteq> 0" by (simp add: unat_eq_0)
    from duration_ms_exact [OF this, of "total_frames s"] r a
    show "int (duration_ms s) =
        \<lfloor>(of_nat (total_frames s) :: rat) / of_nat (unat (sampleRate (last (chunks s)))) * 1000\<rfloor>"
      by (simp add: duration_ms_def)
  }
next
  assume b: "length d = 960 \<and> unat hdr + 1920 \<le> unat B"
  then have ne: "d \<noteq> []" by auto
  let ?c = "\<lparr>data = d, timestamp = now, sampleRate = 48000, channels = 1\<rparr>"
  let ?s1 = "Push hdr now (AudioBuffer_new B) d 48000 1"
  from b have p: "?s1 =
     \<lparr>chunks = [?c], float32Chunks = [], maxSizeBytes = B,
      currentSizeBytes = GetChunkSize hdr ?c\<rparr>"
    by (intro Push_fresh [OF ne]) simp
  have "total_samples ?s1 * 1000 < 2 ^ 64" using b by (simp add: p total_samples_def)
  then have "GetBufferedDurationMs ?s1 = Inr (word_of_nat (duration_ms ?s1))"
    by (intro GetBufferedDurationMs_value) (simp_all add: p)
  moreover have "duration_ms ?s1 = 20"
    using b by (simp add: p duration_ms_def total_frames_def frames_of_def)
  ultimately have "GetBufferedDurationMs ?s1 = Inr 20" by simp
  then show "let s1 = ?s1
         in GetBufferedDurationMs s1 = Inr 20
          \<and> fst (Pop hdr s1) = Some ?c
          \<and> IsEmpty (snd (Pop hdr s1))"
    by (simp add: Let_def) (simp add: p Pop_def IsEmpty_def Let_def)
qed

lemma demo_mixed_channels_eq: "demo_mixed_channels =
   \<lparr>chunks = [\<lparr>data = [1, 2, 3, 4], timestamp = 0, sampleRate = 1000, channels = 2\<rparr>,
              \<lparr>data = [5, 6], timestamp = 1, sampleRate = 1000, channels = 1\<rparr>],
    float32Chunks = [], maxSizeBytes = default_maxSizeBytes, currentSizeBytes = 92\<rparr>"
  by (simp add: demo_mixed_channels_def AudioBuffer_new_def default_maxSizeBytes_def Push_def
        GetChunkSize_def TrimToSize.simps Let_def)

lemma demo_partial_frame_eq: "demo_partial_frame =
   \<lparr>chunks = [\<lparr>data = [1, 2, 3], timestamp = 0, sampleRate = 500, channels = 2\<rparr>],
    float32Chunks = [], maxSizeBytes = default_maxSizeBytes, currentSizeBytes = 46\<rparr>"
  by (simp add: demo_partial_frame_def AudioBuffer_new_def default_maxSizeBytes_def Push_def
        GetChunkSize_def TrimToSize.simps Let_def)

lemma demo_zero_channels_eq: "demo_zero_channels =
   \<lparr>chunks = [\<lparr>data = [1], timestamp = 0, sampleRate = 0, channels = 0\<rparr>],
    float32Chunks = [], maxSizeBytes = default_maxSizeBytes, currentSizeBytes = 42\<rparr>"
  by (simp add: demo_zero_channels_def AudioBuffer_new_def default_maxSizeBytes_def Push_def
        GetChunkSize_def TrimToSize.simps Let_def)

text \<open>
  Claim C4 as stated does not hold in general.  With a stereo chunk of 4 samples and a
  mono chunk of 2 samples queued at 1000 Hz the function returns 4, where total samples
  / channels / rate * 1000 is 3 or 6, whichever channel count is taken.  With one stereo
  chunk of 3 samples at 500 Hz it returns 2, where the formula gives 3.  With a chunk
  pushed with no channel the rate check is never reached, so a rate of 0 does not make
  it return 0.  In a buffer with a budget of 100 bytes the push of 960 samples evicts the
  chunk at once: the duration is 0, not 20, and \<open>Pop\<close> returns nothing.
\<close>

lemma demo_zero_rate_eq: "demo_zero_rate =
   \<lparr>chunks = [\<lparr>data = [1], timestamp = 0, sampleRate = 0, channels = 1\<rparr>],
    float32Chunks = [], maxSizeBytes = default_maxSizeBytes, currentSizeBytes = 42\<rparr>"
  by (simp add: demo_zero_rate_def AudioBuffer_new_def default_maxSizeBytes_def Push_def
        GetChunkSize_def TrimToSize.simps Let_def)

lemma demo_small_budget_eq: "demo_small_budget =
   \<lparr>chunks = [], float32Chunks = [], maxSizeBytes = 100, currentSizeBytes = 0\<rparr>"
  by (simp add: demo_small_budget_def AudioBuffer_new_def Push_def GetChunkSize_def
        TrimToSize.simps Let_def)

theorem buffered_duration_counterexample:
  "GetBufferedDurationMs demo_mixed_channels = Inr 4
   \<and> total_samples demo_mixed_channels = 6
   \<and> claimed_duration 6 2 1000 = 3
   \<and> claimed_duration 6 1 1000 = 6
   \<and> GetBufferedDurationMs demo_partial_frame = Inr 2
   \<and> total_samples demo_partial_frame = 3
   \<and> claimed_duration 3 2 500 = 3
   \<and> sampleRate (last (chunks demo_zero_channels)) = 0
   \<and> GetBufferedDurationMs demo_zero_channels \<noteq> Inr 0
   \<and> GetBufferedDurationMs demo_small_budget = Inr 0
   \<and> fst (Pop 40 demo_small_budget) = None"
  by (simp add: demo_mixed_channels_eq demo_partial_frame_eq demo_zero_channels_eq
        demo_small_budget_eq GetBufferedDurationMs_def total_samples_def claimed_duration_def
        Pop_def)

text \<open>
  Claim C4, instances: the two queued chunks above, an empty buffer, a chunk with a
  sample rate of zero, and the 960-sample scenario with the default budget.
\<close>

theorem buffered_duration_witness:
  "GetBufferedDurationMs demo_mixed_channels = Inr 4
   \<and> duration_ms demo_mixed_channels = 4
   \<and> GetBufferedDurationMs (AudioBuffer_new 100) = Inr 0
   \<and> sampleRate (last (chunks demo_zero_rate)) = 0
   \<and> GetBufferedDurationMs demo_zero_rate = Inr 0
   \<and> (let s1 = Push 40 7 (AudioBuffer_new default_maxSizeBytes) (replicate 960 0) 48000 1
       in GetBufferedDurationMs s1 = Inr 20
        \<and> fst (Pop 40 s1)
             = Some \<lparr>data = replicate 960 0, timestamp = 7, sampleRate = 48000, channels = 1\<rparr>
        \<and> IsEmpty (snd (Pop 40 s1)))"
proof -
  have a: "chunks demo_mixed_channels \<noteq> []
      \<and> (\<forall>c\<in>set (chunks demo_mixed_channels). channels c \<noteq> 0)
      \<and> total_samples demo_mixed_channels * 1000 < 2 ^ 64"
    by (simp add: demo_mixed_channels_eq total_samples_def)
  have b: "duration_ms demo_mixed_channels = 4"
    by (simp add: demo_mixed_channels_eq duration_ms_def total_frames_def frames_of_def)
  have c: "chunks (AudioBuffer_new 100) = []" by (simp add: AudioBuffer_new_def)
  have d: "length (replicate 960 (0 :: int16_t)) = 960
      \<and> unat (40 :: size_t) + 1920 \<le> unat default_maxSizeBytes"
    by (simp add: default_maxSizeBytes_def)
  have z: "chunks demo_zero_rate \<noteq> []
      \<and> (\<forall>c\<in>set (chunks demo_zero_rate). channels c \<noteq> 0)
      \<and> total_samples demo_zero_rate * 1000 < 2 ^ 64"
    by (simp add: demo_zero_rate_eq total_samples_def)
  have r: "sampleRate (last (chunks demo_zero_rate)) = 0"
    by (simp add: demo_zero_rate_eq)
  note t1 = buffered_duration [of demo_mixed_channels demo_mixed_channels
      "replicate 960 0" 40 default_maxSizeBytes 7]
  note t2 = buffered_duration [of "AudioBuffer_new 100" "AudioBuffer_new 100"
      "replicate 960 0" 40 default_maxSizeBytes 7]
  note t3 = buffered_duration [of demo_zero_rate demo_zero_rate
      "replicate 960 0" 40 default_maxSizeBytes 7]
  from t1 a b have e: "GetBufferedDurationMs demo_mixed_channels = Inr 4" by simp
  from t2 c have f: "GetBufferedDurationMs (AudioBuffer_new 100) = Inr 0" by blast
  from t3 z r have h: "GetBufferedDurationMs demo_zero_rate = Inr 0" by blast
  from t1 d have g: "let s1 = Push 40 7 (AudioBuffer_new default_maxSizeBytes) (replicate 960 0) 48000 1
       in GetBufferedDurationMs s1 = Inr 20
        \<and> fst (Pop 40 s1)
             = Some \<lparr>data = replicate 960 0, timestamp = 7, sampleRate = 48000, channels = 1\<rparr>
        \<and> IsEmpty (snd (Pop 40 s1))"
    by blast
  from e b f r h g show ?thesis by blast
qed

text \<open>
  Claim C10.  \<open>Push\<close> stores a chunk with \<open>channels = 0\<close> as it is, so a state with such
  a chunk is reached by one call on a fresh buffer; in every state whose PCM16 queue
  holds such a chunk \<open>GetBufferedDurationMs\<close> divides by zero, whatever the sample
  rates.  The only zero check of the function is the one on the sample rate: with
  non-zero channel counts and a rate of 0 it returns 0.
\<close>

theorem unguarded_channel_division:
  "(d \<noteq> [] \<and> unat hdr + 2 * length d \<le> unat B \<longrightarrow>
      chunks (run_ops hdr (AudioBuffer_new B) [OpPush now d r 0])
        = [\<lparr>data = d, timestamp = now, sampleRate = r, channels = 0\<rparr>]
      \<and> GetBufferedDurationMs (run_ops hdr (AudioBuffer_new B) [OpPush now d r 0])
        = Inl DivisionByZero)
   \<and> ((\<exists>c\<in>set (chunks s). channels c = 0) \<longrightarrow> GetBufferedDurationMs s = Inl DivisionByZero)
   \<and> (chunks s \<noteq> [] \<and> (\<forall>c\<in>set (chunks s). channels c \<noteq> 0)
        \<and> sampleRate (last (chunks s)) = 0 \<longrightarrow> GetBufferedDurationMs s = Inr 0)"
proof (intro conjI impI)
  assume a: "d \<noteq> [] \<and> unat hdr + 2 * length d \<le> unat B"
  then have p: "Push hdr now (AudioBuffer_new B) d r 0 =
     \<lparr>chunks = [\<lparr>data = d, timestamp = now, sampleRate = r, channels = 0\<rparr>],
      float32Chunks = [], maxSizeBytes = B,
      currentSizeBytes = GetChunkSize hdr \<lparr>data = d, timestamp = now, sampleRate = r, channels = 0\<rparr>\<rparr>"
    by (intro Push_fresh) simp_all
  show "chunks (run_ops hdr (AudioBuffer_new B) [OpPush now d r 0])
        = [\<lparr>data = d, timestamp = now, sampleRate = r, channels = 0\<rparr>]"
    by (simp add: run_ops_def p)
  then show "GetBufferedDurationMs (run_ops hdr (AudioBuffer_new B) [OpPush now d r 0])
        = Inl DivisionByZero"
    by (intro GetBufferedDurationMs_zero_channels) simp
next
  assume "\<exists>c\<in>set (chunks s). channels c = 0"
  then show "GetBufferedDurationMs s = Inl DivisionByZero"
    by (rule GetBufferedDurationMs_zero_channels)
next
  assume "chunks s \<noteq> [] \<and> (\<forall>c\<in>set (chunks s). channels c \<noteq> 0)
        \<and> sampleRate (last (chunks s)) = 0"
  then show "GetBufferedDurationMs s = Inr 0"
    by (simp add: GetBufferedDurationMs_zero_rate)
qed

text \<open>
  Claim C10, instances: a one-sample chunk pushed with no channel, and one pushed with
  a sample rate of zero.
\<close>

theorem unguarded_channel_division_witness:
  "GetBufferedDurationMs (run_ops 40 (AudioBuffer_new default_maxSizeBytes) [OpPush 0 [1] 48000 0])
     = Inl DivisionByZero
   \<and> (\<exists>c\<in>set (chunks demo_zero_channels). channels c = 0)
   \<and> GetBufferedDurationMs demo_zero_channels = Inl DivisionByZero
   \<and> chunks demo_zero_rate \<noteq> []
   \<and> GetBufferedDurationMs demo_zero_rate = Inr 0"
proof -
  have a: "[1 :: int16_t] \<noteq> [] \<and> unat (40 :: size_t) + 2 * length [1 :: int16_t]
      \<le> unat default_maxSizeBytes"
    by (simp add: default_maxSizeBytes_def)
  have b: "\<exists>c\<in>set (chunks demo_zero_channels). channels c = 0"
    by (simp add: demo_zero_channels_eq)
  have c: "chunks demo_zero_rate \<noteq> [] \<and> (\<forall>c\<in>set (chunks demo_zero_rate). channels c \<noteq> 0)
        \<and> sampleRate (last (chunks demo_zero_rate)) = 0"
    by (simp add: demo_zero_rate_eq)
  note t1 = unguarded_channel_division [of "[1]" 40 default_maxSizeBytes 0 48000 demo_zero_channels]
  note t2 = unguarded_channel_division [of "[1]" 40 default_maxSizeBytes 0 48000 demo_zero_rate]
  from t1 a have "GetBufferedDurationMs
      (run_ops 40 (AudioBuffer_new default_maxSizeBytes) [OpPush 0 [1] 48000 0])
     = Inl DivisionByZero" by blast
  moreover from t1 b have "GetBufferedDurationMs demo_zero_channels = Inl DivisionByZero" by blast
  moreover from t2 c have "GetBufferedDurationMs demo_zero_rate = Inr 0" by blast
  ultimately show ?thesis using b c by blast
qed

end
